theory Spec2Isabelle
  imports Main
begin

text \<open>
  A model of hanau, a session layer over WebSockets: the server (\<open>HanauServer\<close>, the
  version with handshake hooks, acknowledgement, deferred replay and backpressure
  guard) and the client (\<open>HanauClient\<close>). Both are single-threaded event handlers, so
  each handler, timer callback and method is a function from the state of the object
  to its new state, and a run is a sequence of such turns. What the objects do to the
  outside (calls on a socket, calls of the application's callbacks, timers set) is
  appended to a trace. The transport is outside: its events are turns, and of a socket
  the model keeps what the code reads (\<open>readyState\<close>, \<open>bufferedAmount\<close>). Packet ids
  are natural numbers. Frames are taken after \<open>JSON.parse\<close>: invalid JSON, or an object
  with a command, an id and data.
\<close>

section \<open>JavaScript \<open>Map\<close>: unique keys, iteration in insertion order\<close>

text \<open>
  The server keeps \<open>clients\<close> (sessionId to socket) and, per session, a history
  (packet id to packet) in JavaScript \<open>Map\<close> objects. A \<open>Map\<close> iterates in the
  order in which its keys were first inserted; \<open>set\<close> on a key that is present
  replaces the value and keeps the position; \<open>delete\<close> removes the entry.
  The model is an association list with these operations.
\<close>

type_synonym ('k, 'v) jsmap = "('k \<times> 'v) list"

definition jm_get :: "('k, 'v) jsmap \<Rightarrow> 'k \<Rightarrow> 'v option" where
  "jm_get m k = map_of m k"

definition jm_has :: "('k, 'v) jsmap \<Rightarrow> 'k \<Rightarrow> bool" where
  "jm_has m k = (map_of m k \<noteq> None)"

fun jm_set :: "'k \<Rightarrow> 'v \<Rightarrow> ('k, 'v) jsmap \<Rightarrow> ('k, 'v) jsmap" where
  "jm_set k v [] = [(k, v)]"
| "jm_set k v ((k', v') # m) =
     (if k' = k then (k, v) # m else (k', v') # jm_set k v m)"

definition jm_delete :: "'k \<Rightarrow> ('k, 'v) jsmap \<Rightarrow> ('k, 'v) jsmap" where
  "jm_delete k m = filter (\<lambda>e. fst e \<noteq> k) m"

definition jm_keys :: "('k, 'v) jsmap \<Rightarrow> 'k list" where
  "jm_keys m = map fst m"

definition jm_values :: "('k, 'v) jsmap \<Rightarrow> 'v list" where
  "jm_values m = map snd m"

definition jm_size :: "('k, 'v) jsmap \<Rightarrow> nat" where
  "jm_size m = length m"

text \<open>\<open>Math.min(...keys)\<close>: the least argument; with no argument the result is
  \<open>Infinity\<close>, which is no key of any map (\<open>None\<close> here).\<close>

definition math_min :: "nat list \<Rightarrow> nat option" where
  "math_min ks = (case ks of [] \<Rightarrow> None | k # r \<Rightarrow> Some (fold min r k))"


section \<open>Packets, sockets and the server object\<close>

text \<open>
  \<open>data\<close> is any JSON value. The server reads two fields of it (in a handshake) and
  builds two values itself (\<open>null\<close> and the error object); everything else is opaque
  text.
\<close>

datatype jsdata =
    Null
  | Object (data_sessionId: "string option") (data_lastReceivedId: "nat option") (data_rest: string)
  | ErrorMessage string
  | Opaque string

text \<open>\<open>msg.data || {}\<close> followed by the destructuring
  \<open>{ sessionId, lastReceivedId = 0 }\<close>.\<close>

fun handshake_fields :: "jsdata \<Rightarrow> string option \<times> nat" where
  "handshake_fields (Object s l r) = (s, (case l of None \<Rightarrow> 0 | Some n \<Rightarrow> n))"
| "handshake_fields d = (None, 0)"

record packet =
  pkt_id :: nat
  pkt_command :: string
  pkt_data :: jsdata

text \<open>What \<open>JSON.parse(raw.toString())\<close> gives for a frame: a failure, or an object
  with \<open>command\<close>, \<open>id\<close> and \<open>data\<close> (an absent id is 0).\<close>

datatype incoming = InvalidJSON | Msg string nat jsdata

datatype ready_state = CONNECTING | OPEN | CLOSING | CLOSED

text \<open>\<open>HanauWebSocket\<close>: the transport's socket with the three fields the server
  adds. \<open>readyState\<close> and \<open>bufferedAmount\<close> belong to the transport.\<close>

record hanau_ws =
  isAlive :: bool
  lastSentId :: nat
  sessionId :: "string option"
  readyState :: ready_state
  bufferedAmount :: nat

text \<open>Everything the server does to the outside, in the order it does it: calls on a
  socket and calls of the application's callbacks.\<close>

datatype effect =
    Send nat packet
  | Close nat "(nat \<times> string) option"
  | Terminate nat
  | Ping nat
  | ConnectionCb nat string
  | DisconnectionCb nat string
  | Handler string jsdata string nat

text \<open>A handshake hook sees the handshake data and the request of the connection
  (here the socket's number) and answers \<open>true\<close> (\<open>None\<close>) or a code and a reason.\<close>

type_synonym hook = "jsdata \<Rightarrow> nat \<Rightarrow> (nat \<times> string) option"

text \<open>
  The \<open>HanauServer\<close> object. Sockets are objects shared by reference between the
  registry, the closures of their handlers and the timers, so they live in a store
  (\<open>sockets\<close>) and everything else holds their numbers. \<open>immediates\<close> is the queue of
  \<open>setImmediate\<close> callbacks (the deferred replays): socket, session, lastReceivedId.
\<close>

record server =
  sockets :: "nat \<rightharpoonup> hanau_ws"
  nextSocket :: nat
  clients :: "(string, nat) jsmap"
  clientHistories :: "(string, (nat, packet) jsmap) jsmap"
  messageListeners :: "string list"
  connectionListeners :: "nat list"
  disconnectionListeners :: "nat list"
  handshakeListeners :: "hook list"
  immediates :: "(nat \<times> string \<times> nat) list"
  trace :: "effect list"

definition new_server :: server where
  "new_server = \<lparr> sockets = Map.empty, nextSocket = 0, clients = [], clientHistories = [],
     messageListeners = [], connectionListeners = [], disconnectionListeners = [],
     handshakeListeners = [], immediates = [], trace = [] \<rparr>"

definition emit :: "effect list \<Rightarrow> server \<Rightarrow> server" where
  "emit es st = st\<lparr>trace := trace st @ es\<rparr>"

definition update_ws :: "nat \<Rightarrow> (hanau_ws \<Rightarrow> hanau_ws) \<Rightarrow> server \<Rightarrow> server" where
  "update_ws c f st =
     (case sockets st c of None \<Rightarrow> st
      | Some w \<Rightarrow> st\<lparr>sockets := (sockets st)(c \<mapsto> f w)\<rparr>)"

text \<open>The transport's \<open>close\<close> and \<open>terminate\<close>: a socket that is not yet closed
  goes to \<open>CLOSING\<close>; its \<open>close\<close> event comes later, as an event of its own.\<close>

definition begin_closing :: "hanau_ws \<Rightarrow> hanau_ws" where
  "begin_closing w = (if readyState w = CLOSED then w else w\<lparr>readyState := CLOSING\<rparr>)"

definition ws_close :: "nat \<Rightarrow> (nat \<times> string) option \<Rightarrow> server \<Rightarrow> server" where
  "ws_close c cr st = emit [Close c cr] (update_ws c begin_closing st)"

definition ws_terminate :: "nat \<Rightarrow> server \<Rightarrow> server" where
  "ws_terminate c st = emit [Terminate c] (update_ws c begin_closing st)"

text \<open>\<open>_send(ws, packet)\<close>: \<open>ws.send(JSON.stringify(packet))\<close>.\<close>

definition p_send :: "nat \<Rightarrow> packet \<Rightarrow> server \<Rightarrow> server" where
  "p_send c p st = emit [Send c p] st"

definition notify_connection :: "string \<Rightarrow> server \<Rightarrow> server" where
  "notify_connection sid st = emit (map (\<lambda>fn. ConnectionCb fn sid) (connectionListeners st)) st"

definition notify_disconnection :: "string \<Rightarrow> server \<Rightarrow> server" where
  "notify_disconnection sid st =
     emit (map (\<lambda>fn. DisconnectionCb fn sid) (disconnectionListeners st)) st"


section \<open>\<open>HanauServer.send\<close> and \<open>HanauServer.broadcast\<close>\<close>

text \<open>\<open>history.set(packet.id, packet)\<close>, then the limit of 100: the entry with the
  least key is deleted when the size has passed 100.\<close>

definition history_limit :: "(nat, packet) jsmap \<Rightarrow> (nat, packet) jsmap" where
  "history_limit history =
     (if jm_size history > 100
      then (case math_min (jm_keys history) of
              None \<Rightarrow> history
            | Some oldestId \<Rightarrow> jm_delete oldestId history)
      else history)"

definition history_record :: "packet \<Rightarrow> (nat, packet) jsmap \<Rightarrow> (nat, packet) jsmap" where
  "history_record p history = history_limit (jm_set (pkt_id p) p history)"

definition ensure_history ::
  "string \<Rightarrow> (string, (nat, packet) jsmap) jsmap \<Rightarrow> (string, (nat, packet) jsmap) jsmap" where
  "ensure_history sid hs = (if jm_has hs sid then hs else jm_set sid [] hs)"

text \<open>\<open>send(sessionId, command, data)\<close>. The counter of a socket is set by the
  connection handler, so \<open>if (!ws.lastSentId) ws.lastSentId = 0\<close> changes nothing. The
  id is taken before the backpressure check.\<close>

definition send :: "string \<Rightarrow> string \<Rightarrow> jsdata \<Rightarrow> server \<Rightarrow> server" where
  "send sid cmd d st =
     (case jm_get (clients st) sid of
        None \<Rightarrow> st
      | Some c \<Rightarrow>
         (case sockets st c of
            None \<Rightarrow> st
          | Some ws \<Rightarrow>
             if readyState ws \<noteq> OPEN then st
             else
               let n = lastSentId ws + 1;
                   st1 = st\<lparr>sockets := (sockets st)(c \<mapsto> ws\<lparr>lastSentId := n\<rparr>)\<rparr>;
                   p = \<lparr>pkt_id = n, pkt_command = cmd, pkt_data = d\<rparr>
               in if bufferedAmount ws > 5000000
                  then notify_disconnection sid
                         ((ws_terminate c st1)\<lparr>clients := jm_delete sid (clients st1)\<rparr>)
                  else
                    let hs = ensure_history sid (clientHistories st1)
                    in (case jm_get hs sid of
                          None \<Rightarrow> st1\<lparr>clientHistories := hs\<rparr>
                        | Some history \<Rightarrow>
                            p_send c p
                              (st1\<lparr>clientHistories := jm_set sid (history_record p history) hs\<rparr>))))"

text \<open>\<open>clients.forEach\<close> in \<open>broadcast\<close>: each registered socket that is open gets a
  fresh id and the packet; nothing else is touched.\<close>

definition broadcast_one :: "string \<Rightarrow> jsdata \<Rightarrow> nat \<Rightarrow> server \<Rightarrow> server" where
  "broadcast_one cmd d c st =
     (case sockets st c of
        None \<Rightarrow> st
      | Some ws \<Rightarrow>
          if readyState ws \<noteq> OPEN then st
          else
            let n = lastSentId ws + 1
            in p_send c \<lparr>pkt_id = n, pkt_command = cmd, pkt_data = d\<rparr>
                 (st\<lparr>sockets := (sockets st)(c \<mapsto> ws\<lparr>lastSentId := n\<rparr>)\<rparr>))"

definition broadcast :: "string \<Rightarrow> jsdata \<Rightarrow> server \<Rightarrow> server" where
  "broadcast cmd d st = fold (broadcast_one cmd d) (jm_values (clients st)) st"


section \<open>The handlers installed by the constructor\<close>

text \<open>\<open>wss.on("connection", ...)\<close>: a new socket object, alive, with its own
  counter at 0 and no session. The transport hands it over open.\<close>

definition on_connection :: "server \<Rightarrow> server" where
  "on_connection st =
     st\<lparr>sockets := (sockets st)(nextSocket st \<mapsto>
            \<lparr>isAlive = True, lastSentId = 0, sessionId = None,
             readyState = OPEN, bufferedAmount = 0\<rparr>),
        nextSocket := nextSocket st + 1\<rparr>"

definition on_pong :: "nat \<Rightarrow> server \<Rightarrow> server" where
  "on_pong c st = update_ws c (\<lambda>w. w\<lparr>isAlive := True\<rparr>) st"

text \<open>The hooks run in registration order; the first answer that is not \<open>true\<close>
  ends the loop.\<close>

fun run_hooks :: "hook list \<Rightarrow> jsdata \<Rightarrow> nat \<Rightarrow> (nat \<times> string) option" where
  "run_hooks [] d c = None"
| "run_hooks (h # hs) d c = (case h d c of None \<Rightarrow> run_hooks hs d c | Some r \<Rightarrow> Some r)"

text \<open>\<open>!sessionId\<close>: an absent or empty session id.\<close>

fun missing :: "string option \<Rightarrow> bool" where
  "missing None = True"
| "missing (Some s) = (s = [])"

text \<open>The accepted part of a handshake, from the eviction to the notification.\<close>

definition evict_old :: "string \<Rightarrow> server \<Rightarrow> server" where
  "evict_old sid st =
     (case jm_get (clients st) sid of
        None \<Rightarrow> st
      | Some oldWs \<Rightarrow> ws_close oldWs (Some (4002, ''duplicate session'')) st)"

definition bind :: "nat \<Rightarrow> string \<Rightarrow> server \<Rightarrow> server" where
  "bind c sid st =
     (update_ws c (\<lambda>w. w\<lparr>sessionId := Some sid\<rparr>) st)\<lparr>clients := jm_set sid c (clients st)\<rparr>"

definition send_ack :: "nat \<Rightarrow> server \<Rightarrow> server" where
  "send_ack c st =
     (case sockets st c of
        None \<Rightarrow> st
      | Some w \<Rightarrow>
          let n = lastSentId w + 1
          in p_send c \<lparr>pkt_id = n, pkt_command = ''handshake_ack'', pkt_data = Null\<rparr>
               (st\<lparr>sockets := (sockets st)(c \<mapsto> w\<lparr>lastSentId := n\<rparr>)\<rparr>))"

definition accept_handshake :: "nat \<Rightarrow> string \<Rightarrow> nat \<Rightarrow> server \<Rightarrow> server" where
  "accept_handshake c sid lastReceivedId st =
     (let st1 = evict_old sid st;
          st2 = bind c sid st1;
          st3 = send_ack c st2;
          st4 = st3\<lparr>clientHistories := ensure_history sid (clientHistories st3)\<rparr>;
          st5 = st4\<lparr>immediates := immediates st4 @ [(c, sid, lastReceivedId)]\<rparr>
      in notify_connection sid st5)"

text \<open>\<open>extWs.on("message", ...)\<close>.\<close>

definition on_message :: "nat \<Rightarrow> incoming \<Rightarrow> server \<Rightarrow> server" where
  "on_message c raw st =
     (case sockets st c of
        None \<Rightarrow> st
      | Some extWs \<Rightarrow>
         (case raw of
            InvalidJSON \<Rightarrow> ws_close c (Some (1003, ''invalid JSON'')) st
          | Msg cmd mid d \<Rightarrow>
              if cmd = ''handshake'' then
                (case handshake_fields d of (s, lastReceivedId) \<Rightarrow>
                   if missing s
                   then ws_close c (Some (4001, ''handshake missing sessionId'')) st
                   else
                     (case run_hooks (handshakeListeners st) d c of
                        Some r \<Rightarrow> ws_close c (Some r) st
                      | None \<Rightarrow>
                          (case s of
                             None \<Rightarrow> st
                           | Some sid \<Rightarrow> accept_handshake c sid lastReceivedId st)))
              else
                (case sessionId extWs of
                   None \<Rightarrow> ws_close c (Some (4003, ''handshake required'')) st
                 | Some sid \<Rightarrow>
                     if cmd = ''ping'' then
                       p_send c \<lparr>pkt_id = mid, pkt_command = ''pong'', pkt_data = Null\<rparr> st
                     else if cmd \<in> set (messageListeners st) then
                       emit [Handler cmd d sid mid] st
                     else
                       p_send c \<lparr>pkt_id = mid, pkt_command = ''error'',
                                 pkt_data = ErrorMessage ''unknown command''\<rparr> st)))"

text \<open>The deferred replay of a handshake: the entries of the session's history, in
  the order the \<open>Map\<close> iterates them, those with \<open>id > lastReceivedId\<close> sent as
  they are.\<close>

definition replay_packets :: "(nat, packet) jsmap \<Rightarrow> nat \<Rightarrow> packet list" where
  "replay_packets history lastReceivedId =
     map snd (filter (\<lambda>e. fst e > lastReceivedId) history)"

definition replay :: "nat \<Rightarrow> string \<Rightarrow> nat \<Rightarrow> server \<Rightarrow> server" where
  "replay c sid lastReceivedId st =
     (case jm_get (clientHistories st) sid of
        None \<Rightarrow> st
      | Some history \<Rightarrow> fold (p_send c) (replay_packets history lastReceivedId) st)"

definition run_immediate :: "server \<Rightarrow> server" where
  "run_immediate st =
     (case immediates st of
        [] \<Rightarrow> st
      | (c, sid, l) # rest \<Rightarrow> replay c sid l (st\<lparr>immediates := rest\<rparr>))"

text \<open>\<open>extWs.on("close", ...)\<close>: the transport has closed the socket.\<close>

definition on_close :: "nat \<Rightarrow> server \<Rightarrow> server" where
  "on_close c st =
     (case sockets st c of
        None \<Rightarrow> st
      | Some w \<Rightarrow>
          let st1 = st\<lparr>sockets := (sockets st)(c \<mapsto> w\<lparr>readyState := CLOSED\<rparr>)\<rparr>
          in (case sessionId w of
                None \<Rightarrow> st1
              | Some sid \<Rightarrow>
                  notify_disconnection sid (st1\<lparr>clients := jm_delete sid (clients st1)\<rparr>)))"

text \<open>The liveness sweep of \<open>pingInterval\<close>. \<open>Map.forEach\<close> visits the entries in
  insertion order and skips an entry deleted before its turn.\<close>

definition sweep_client :: "nat \<Rightarrow> server \<Rightarrow> server" where
  "sweep_client c st =
     (case sockets st c of
        None \<Rightarrow> st
      | Some client \<Rightarrow>
          if \<not> isAlive client then
            (let st1 = ws_terminate c st
             in (case sessionId client of
                   None \<Rightarrow> st1
                 | Some sid \<Rightarrow>
                     notify_disconnection sid (st1\<lparr>clients := jm_delete sid (clients st1)\<rparr>)))
          else
            emit [Ping c] (st\<lparr>sockets := (sockets st)(c \<mapsto> client\<lparr>isAlive := False\<rparr>)\<rparr>))"

fun sweep_loop :: "string list \<Rightarrow> server \<Rightarrow> server" where
  "sweep_loop [] st = st"
| "sweep_loop (k # ks) st =
     sweep_loop ks (case jm_get (clients st) k of None \<Rightarrow> st | Some c \<Rightarrow> sweep_client c st)"

definition sweep :: "server \<Rightarrow> server" where
  "sweep st = sweep_loop (jm_keys (clients st)) st"

text \<open>\<open>HanauServer.close\<close>.\<close>

definition close_server :: "server \<Rightarrow> server" where
  "close_server st = (fold (\<lambda>c. ws_close c None) (jm_values (clients st)) st)\<lparr>clients := []\<rparr>"


section \<open>Runs of the server\<close>

text \<open>The server is a single-threaded actor: its state changes only in the turns
  below, one per transport event, timer or call of the application.\<close>

datatype event =
    Connection
  | Pong nat
  | Message nat incoming
  | CloseEvent nat
  | Sweep
  | Immediate
  | Buffered nat nat
  | CallSend string string jsdata
  | CallBroadcast string jsdata
  | CallOn string
  | CallOnConnection nat
  | CallOnDisconnection nat
  | CallOnHandshake hook
  | CallClose

fun step :: "event \<Rightarrow> server \<Rightarrow> server" where
  "step Connection st = on_connection st"
| "step (Pong c) st = on_pong c st"
| "step (Message c raw) st = on_message c raw st"
| "step (CloseEvent c) st = on_close c st"
| "step Sweep st = sweep st"
| "step Immediate st = run_immediate st"
| "step (Buffered c n) st = update_ws c (\<lambda>w. w\<lparr>bufferedAmount := n\<rparr>) st"
| "step (CallSend sid cmd d) st = send sid cmd d st"
| "step (CallBroadcast cmd d) st = broadcast cmd d st"
| "step (CallOn cmd) st = st\<lparr>messageListeners := cmd # messageListeners st\<rparr>"
| "step (CallOnConnection fn) st = st\<lparr>connectionListeners := connectionListeners st @ [fn]\<rparr>"
| "step (CallOnDisconnection fn) st =
     st\<lparr>disconnectionListeners := disconnectionListeners st @ [fn]\<rparr>"
| "step (CallOnHandshake h) st = st\<lparr>handshakeListeners := handshakeListeners st @ [h]\<rparr>"
| "step CallClose st = close_server st"

definition run :: "event list \<Rightarrow> server \<Rightarrow> server" where
  "run evs st = fold step evs st"

text \<open>The packets handed to a socket, in order, and the disconnection callbacks.\<close>

fun sent_to :: "nat \<Rightarrow> effect list \<Rightarrow> packet list" where
  "sent_to c [] = []"
| "sent_to c (Send c' p # es) = (if c' = c then p # sent_to c es else sent_to c es)"
| "sent_to c (e # es) = sent_to c es"

fun disconnections :: "effect list \<Rightarrow> (nat \<times> string) list" where
  "disconnections [] = []"
| "disconnections (DisconnectionCb fn sid # es) = (fn, sid) # disconnections es"
| "disconnections (e # es) = disconnections es"

definition handshake :: "string \<Rightarrow> nat \<Rightarrow> incoming" where
  "handshake sid l = Msg ''handshake'' 1 (Object (Some sid) (Some l) [])"


section \<open>The client: \<open>HanauClient\<close>\<close>

text \<open>A message listener is the one the constructor registers for
  \<open>handshake_ack\<close>, or a function of the application.\<close>

datatype listener = HandshakeAck | App nat

datatype timer = HandshakeTimer | ReconnectTimer | PingInterval

datatype client_effect =
    WsSend packet
  | WsClose
  | NewWebSocket
  | Deliver nat jsdata
  | OpenCb nat
  | CloseCb nat string
  | SetTimer timer nat
  | ClearTimer timer

text \<open>The fields of the client object; \<open>ws\<close> is \<open>null\<close> or the current socket, of
  which the client reads the ready state only.\<close>

record client =
  ws :: "ready_state option"
  alive :: bool
  lastSentId_c :: nat
  lastReceivedId :: nat
  reconnectCount :: nat
  mayReconnect :: bool
  handshakeComplete :: bool
  messageListeners_c :: "(string, listener list) jsmap"
  openListeners :: "nat list"
  closeListeners :: "nat list"
  extraHandshakeData :: jsdata
  unsentQueue :: "packet list"
  hanauSessionID :: string
  pingInterval :: bool
  trace_c :: "client_effect list"

definition new_client :: "string \<Rightarrow> client" where
  "new_client sid = \<lparr> ws = None, alive = False, lastSentId_c = 0, lastReceivedId = 0,
     reconnectCount = 0, mayReconnect = True, handshakeComplete = False,
     messageListeners_c = [(''handshake_ack'', [HandshakeAck])],
     openListeners = [], closeListeners = [], extraHandshakeData = Object None None [],
     unsentQueue = [], hanauSessionID = sid, pingInterval = False, trace_c = [] \<rparr>"

definition emit_c :: "client_effect list \<Rightarrow> client \<Rightarrow> client" where
  "emit_c es cl = cl\<lparr>trace_c := trace_c cl @ es\<rparr>"

text \<open>\<open>send(command, data)\<close>: the id is taken first; the packet goes to the socket
  when it is open and to the queue otherwise.\<close>

definition send_c :: "string \<Rightarrow> jsdata \<Rightarrow> client \<Rightarrow> client" where
  "send_c cmd d cl =
     (let n = lastSentId_c cl + 1;
          p = \<lparr>pkt_id = n, pkt_command = cmd, pkt_data = d\<rparr>;
          cl1 = cl\<lparr>lastSentId_c := n\<rparr>
      in if ws cl1 \<noteq> Some OPEN
         then cl1\<lparr>unsentQueue := unsentQueue cl1 @ [p]\<rparr>
         else emit_c [WsSend p] cl1)"

text \<open>Calling one listener with \<open>msg.data\<close>. The constructor's listener completes
  the handshake and flushes the queue.\<close>

fun call_listener :: "jsdata \<Rightarrow> listener \<Rightarrow> client \<Rightarrow> client" where
  "call_listener d HandshakeAck cl =
     (emit_c (ClearTimer HandshakeTimer # map WsSend (unsentQueue cl))
        (cl\<lparr>handshakeComplete := True\<rparr>))\<lparr>unsentQueue := []\<rparr>"
| "call_listener d (App fn) cl = emit_c [Deliver fn d] cl"

text \<open>\<open>_handleMessage(msg)\<close>. An id that is 0 or absent is falsy and skips the
  duplicate check.\<close>

definition p_handleMessage :: "packet \<Rightarrow> client \<Rightarrow> client" where
  "p_handleMessage msg cl =
     (if pkt_id msg \<noteq> 0 \<and> pkt_id msg \<le> lastReceivedId cl then cl
      else
        let cl1 = (if pkt_id msg \<noteq> 0 then cl\<lparr>lastReceivedId := pkt_id msg\<rparr> else cl)
        in if pkt_command msg \<noteq> []
           then (case jm_get (messageListeners_c cl1) (pkt_command msg) of
                   None \<Rightarrow> cl1
                 | Some ls \<Rightarrow> fold (call_listener (pkt_data msg)) ls cl1)
           else cl1)"

text \<open>\<open>_reconnect()\<close>: gives up when the counter has passed 5, otherwise counts
  the attempt and schedules \<open>open\<close> after \<open>1000 * reconnectCount\<close> milliseconds.\<close>

definition p_reconnect :: "client \<Rightarrow> client" where
  "p_reconnect cl =
     (if \<not> mayReconnect cl then cl
      else if reconnectCount cl > 5 then cl\<lparr>mayReconnect := False\<rparr>
      else
        let n = reconnectCount cl + 1
        in emit_c [SetTimer ReconnectTimer (1000 * n)] (cl\<lparr>reconnectCount := n\<rparr>))"

definition p_startPing :: "client \<Rightarrow> client" where
  "p_startPing cl =
     emit_c [SetTimer PingInterval 5000]
       ((if pingInterval cl then emit_c [ClearTimer PingInterval] cl else cl)
          \<lparr>pingInterval := True\<rparr>)"

definition p_stopPing :: "client \<Rightarrow> client" where
  "p_stopPing cl =
     (if pingInterval cl then (emit_c [ClearTimer PingInterval] cl)\<lparr>pingInterval := False\<rparr>
      else cl)"

text \<open>\<open>open(extraHandshakeData)\<close> creates the socket; its handlers follow.\<close>

definition open_c :: "jsdata option \<Rightarrow> client \<Rightarrow> client" where
  "open_c extra cl =
     emit_c [NewWebSocket]
       ((case extra of None \<Rightarrow> cl | Some e \<Rightarrow> cl\<lparr>extraHandshakeData := e\<rparr>)
          \<lparr>ws := Some CONNECTING\<rparr>)"

text \<open>\<open>{ sessionId, lastReceivedId, ...extraHandshakeData }\<close>: a field of the extra
  data wins over the client's own.\<close>

definition handshakePayload :: "client \<Rightarrow> jsdata" where
  "handshakePayload cl =
     (case extraHandshakeData cl of
        Object s l r \<Rightarrow>
          Object (case s of None \<Rightarrow> Some (hanauSessionID cl) | Some x \<Rightarrow> Some x)
                 (case l of None \<Rightarrow> Some (lastReceivedId cl) | Some x \<Rightarrow> Some x) r
      | _ \<Rightarrow> Object (Some (hanauSessionID cl)) (Some (lastReceivedId cl)) [])"

definition ws_onopen :: "client \<Rightarrow> client" where
  "ws_onopen cl =
     (let cl1 = cl\<lparr>ws := Some OPEN, alive := True, reconnectCount := 0\<rparr>;
          cl2 = emit_c (map OpenCb (openListeners cl1)) cl1;
          cl3 = send_c ''handshake'' (handshakePayload cl2) (cl2\<lparr>handshakeComplete := False\<rparr>)
      in emit_c [SetTimer HandshakeTimer 3000] (p_startPing cl3))"

definition ws_onmessage :: "incoming \<Rightarrow> client \<Rightarrow> client" where
  "ws_onmessage raw cl =
     (case raw of
        InvalidJSON \<Rightarrow> cl
      | Msg cmd mid d \<Rightarrow>
          if cmd = ''pong'' then cl\<lparr>alive := True\<rparr>
          else p_handleMessage \<lparr>pkt_id = mid, pkt_command = cmd, pkt_data = d\<rparr> cl)"

text \<open>\<open>event.reason || "connection closed"\<close>.\<close>

definition ws_onclose :: "string \<Rightarrow> client \<Rightarrow> client" where
  "ws_onclose reason cl =
     (let cl1 = cl\<lparr>ws := Some CLOSED, alive := False\<rparr>;
          r = (if reason = [] then ''connection closed'' else reason);
          cl2 = p_stopPing (emit_c (map (\<lambda>fn. CloseCb fn r) (closeListeners cl1)) cl1)
      in if mayReconnect cl2 then p_reconnect cl2 else cl2)"

definition handshake_timeout :: "client \<Rightarrow> client" where
  "handshake_timeout cl = (if \<not> handshakeComplete cl then p_reconnect cl else cl)"

definition ping_tick :: "client \<Rightarrow> client" where
  "ping_tick cl = (if \<not> alive cl then p_reconnect cl else send_c ''ping'' Null (cl\<lparr>alive := False\<rparr>))"

definition reconnect_timeout :: "client \<Rightarrow> client" where
  "reconnect_timeout cl = (if \<not> mayReconnect cl then cl else open_c None cl)"

definition close_c :: "client \<Rightarrow> client" where
  "close_c cl =
     (let cl1 = cl\<lparr>mayReconnect := False\<rparr>
      in (case ws cl1 of
            None \<Rightarrow> cl1
          | Some rs \<Rightarrow>
              emit_c [WsClose] (cl1\<lparr>ws := Some (if rs = CLOSED then CLOSED else CLOSING)\<rparr>)))"

definition destroy :: "client \<Rightarrow> client" where
  "destroy cl =
     (p_stopPing (close_c cl))
       \<lparr>messageListeners_c := [], openListeners := [], closeListeners := [], unsentQueue := []\<rparr>"

definition on_c :: "string \<Rightarrow> listener \<Rightarrow> client \<Rightarrow> client" where
  "on_c cmd l cl =
     cl\<lparr>messageListeners_c :=
          jm_set cmd ((case jm_get (messageListeners_c cl) cmd of None \<Rightarrow> [] | Some ls \<Rightarrow> ls) @ [l])
            (messageListeners_c cl)\<rparr>"

definition off_c :: "string \<Rightarrow> listener option \<Rightarrow> client \<Rightarrow> client" where
  "off_c cmd lo cl =
     (case jm_get (messageListeners_c cl) cmd of
        None \<Rightarrow> cl
      | Some ls \<Rightarrow>
          cl\<lparr>messageListeners_c :=
               jm_set cmd (case lo of None \<Rightarrow> [] | Some l \<Rightarrow> filter (\<lambda>x. x \<noteq> l) ls)
                 (messageListeners_c cl)\<rparr>)"

text \<open>The turns of the client: calls of the application, events of the socket, and
  the three timers.\<close>

datatype client_event =
    CallOpen "jsdata option"
  | CallSendC string jsdata
  | CallCloseC
  | CallDestroy
  | CallOnC string nat
  | CallOffC string "nat option"
  | CallOnOpen nat
  | CallOnClose nat
  | WsOpened
  | WsMessage incoming
  | WsClosed string
  | HandshakeTimeout
  | PingTick
  | ReconnectTimeout

fun step_c :: "client_event \<Rightarrow> client \<Rightarrow> client" where
  "step_c (CallOpen extra) cl = open_c extra cl"
| "step_c (CallSendC cmd d) cl = send_c cmd d cl"
| "step_c CallCloseC cl = close_c cl"
| "step_c CallDestroy cl = destroy cl"
| "step_c (CallOnC cmd fn) cl = on_c cmd (App fn) cl"
| "step_c (CallOffC cmd fo) cl = off_c cmd (map_option App fo) cl"
| "step_c (CallOnOpen fn) cl = cl\<lparr>openListeners := openListeners cl @ [fn]\<rparr>"
| "step_c (CallOnClose fn) cl = cl\<lparr>closeListeners := closeListeners cl @ [fn]\<rparr>"
| "step_c WsOpened cl = ws_onopen cl"
| "step_c (WsMessage raw) cl = ws_onmessage raw cl"
| "step_c (WsClosed reason) cl = ws_onclose reason cl"
| "step_c HandshakeTimeout cl = handshake_timeout cl"
| "step_c PingTick cl = ping_tick cl"
| "step_c ReconnectTimeout cl = reconnect_timeout cl"

definition run_c :: "client_event list \<Rightarrow> client \<Rightarrow> client" where
  "run_c evs cl = fold step_c evs cl"

text \<open>The delays of the reconnects a run has scheduled, in order.\<close>

fun reconnect_delays :: "client_effect list \<Rightarrow> nat list" where
  "reconnect_delays [] = []"
| "reconnect_delays (SetTimer ReconnectTimer n # es) = n # reconnect_delays es"
| "reconnect_delays (e # es) = reconnect_delays es"

text \<open>Reconnection attempts that fail can be of two kinds. In the first the timer
  opens a socket and the socket closes without ever opening (the connection is not
  established). In the second the socket opens, the client sends its handshake, and no
  acknowledgement comes before the handshake timer fires; \<open>onopen\<close> has then reset
  the attempt counter.\<close>

definition unopened_attempts :: "nat \<Rightarrow> client_event list" where
  "unopened_attempts n = concat (replicate n [ReconnectTimeout, WsClosed []])"

definition unanswered_attempts :: "nat \<Rightarrow> client_event list" where
  "unanswered_attempts n = concat (replicate n [ReconnectTimeout, WsOpened, HandshakeTimeout])"

text \<open>Between two states of the client the attempt counter has gone from \<open>c\<close> up to
  \<open>c'\<close>, not past 6, and the reconnects scheduled in between are those for the
  counter values \<open>c + 1\<close> to \<open>c'\<close>, each after 1000 ms times the value.\<close>

definition counted :: "client \<Rightarrow> client \<Rightarrow> bool" where
  "counted cl cl' =
     (reconnectCount cl \<le> reconnectCount cl' \<and>
      reconnectCount cl' \<le> max (reconnectCount cl) 6 \<and>
      reconnect_delays (trace_c cl') =
        reconnect_delays (trace_c cl) @
          map (\<lambda>k. 1000 * k) [reconnectCount cl + 1 ..< reconnectCount cl' + 1])"


section \<open>Auxiliary notions for the statements\<close>

text \<open>Every history has at most 100 entries, under keys that are all different.\<close>

definition bounded :: "(string, (nat, packet) jsmap) jsmap \<Rightarrow> bool" where
  "bounded hs = (\<forall>e \<in> set hs. jm_size (snd e) \<le> 100 \<and> distinct (jm_keys (snd e)))"

text \<open>The history of a session; a session without one has nothing recorded.\<close>

definition history_of :: "server \<Rightarrow> string \<Rightarrow> (nat, packet) jsmap" where
  "history_of st sid = (case jm_get (clientHistories st) sid of None \<Rightarrow> [] | Some h \<Rightarrow> h)"

text \<open>The ids handed to the sockets, with the socket, in the order of the calls.\<close>

fun sent_ids :: "effect list \<Rightarrow> (nat \<times> nat) list" where
  "sent_ids [] = []"
| "sent_ids (Send c p # es) = (c, pkt_id p) # sent_ids es"
| "sent_ids (e # es) = sent_ids es"


text \<open>A server whose session \<open>s\<close> has a full history: after the handshake
  (id 1) a hundred packets were sent on socket 0 with the ids 2 to 101.\<close>

definition entry :: "nat \<Rightarrow> nat \<times> packet" where
  "entry i = (i, \<lparr>pkt_id = i, pkt_command = ''tick'', pkt_data = Null\<rparr>)"

definition full_server :: server where
  "full_server = new_server
     \<lparr>sockets := [0 \<mapsto> \<lparr>isAlive = True, lastSentId = 101, sessionId = Some ''s'',
                         readyState = OPEN, bufferedAmount = 0\<rparr>],
      nextSocket := 1,
      clients := [(''s'', 0)],
      clientHistories := [(''s'', map entry [2..<102])]\<rparr>"



text \<open>A session whose socket the server has begun to close (after a frame that was
  not JSON) while 6,000,000 bytes were still unsent; the socket's \<open>close\<close> event has
  not come yet, so the socket is still in the registry.\<close>

definition closing_server :: server where
  "closing_server =
     run [CallOnDisconnection 7, Connection, Message 0 (handshake ''s'' 0),
          Buffered 0 6000000, Message 0 InvalidJSON] new_server"

text \<open>The same session with the socket open and 6,000,000 bytes unsent.\<close>

definition congested_server :: server where
  "congested_server =
     run [CallOnDisconnection 7, Connection, Message 0 (handshake ''s'' 0),
          Buffered 0 6000000] new_server"


text \<open>A client with one application listener for \<open>chat\<close>, and a packet for it.\<close>

definition listening_client :: client where
  "listening_client = run_c [CallOnC ''chat'' 1] (new_client ''s'')"

definition chat3 :: packet where
  "chat3 = \<lparr>pkt_id = 3, pkt_command = ''chat'', pkt_data = Opaque ''hi''\<rparr>"


text \<open>A session that reconnects: a handshake and one \<open>send\<close> on the first socket,
  which then closes; the client comes back on a second socket with the same session
  id and the last id it has received.\<close>

definition reconnect_run :: "event list" where
  "reconnect_run =
     [Connection, Message 0 (handshake ''s'' 0), Immediate, CallSend ''s'' ''a'' Null,
      CloseEvent 0,
      Connection, Message 1 (handshake ''s'' 2), Immediate]"

text \<open>The client of that session: it receives the acknowledgement (id 1) and the
  packet (id 2), loses the connection, and opens again.\<close>

definition returning_client :: client where
  "returning_client =
     run_c [CallOpen None, WsOpened, WsMessage (Msg ''handshake_ack'' 1 Null),
            WsMessage (Msg ''a'' 2 Null), WsClosed [], ReconnectTimeout, WsOpened]
       (new_client ''s'')"

text \<open>Two sockets present the same session id, one after the other.\<close>

definition duplicate_run :: "event list" where
  "duplicate_run =
     [Connection, Connection, Message 0 (handshake ''s'' 0), Immediate,
      Message 1 (handshake ''s'' 0), Immediate]"

text \<open>A socket that answers no ping: the first sweep clears its flag and pings, the
  second finds the flag still cleared; then the terminated socket's \<open>close\<close> event
  arrives. One disconnection listener (7) is registered.\<close>

definition silent_run :: "event list" where
  "silent_run =
     [CallOnDisconnection 7, Connection, Message 0 (handshake ''s'' 0), Immediate,
      Sweep, Sweep, CloseEvent 0]"

text \<open>A handshake followed by one broadcast.\<close>

definition broadcast_run :: "event list" where
  "broadcast_run =
     [Connection, Message 0 (handshake ''s'' 0), Immediate, CallBroadcast ''news'' (Opaque ''n'')]"

text \<open>Two broadcasts and a \<open>send\<close> on the first socket, a \<open>send\<close> on the second,
  and a third socket whose handshake asks for everything after id 0.\<close>

definition replay_run :: "event list" where
  "replay_run =
     [Connection, Message 0 (handshake ''s'' 0), Immediate,
      CallBroadcast ''news'' Null, CallBroadcast ''news'' Null, CallSend ''s'' ''a'' Null,
      CloseEvent 0,
      Connection, Message 1 (handshake ''s'' 4), Immediate,
      CallSend ''s'' ''b'' Null,
      CloseEvent 1,
      Connection, Message 2 (handshake ''s'' 0), Immediate]"


section \<open>Facts about the \<open>Map\<close> model\<close>

lemma set_jm_set: "set (jm_set k v m) \<subseteq> insert (k, v) (set m)"
  by (induction m) (auto split: if_splits)

lemma length_jm_set: "length (jm_set k v m) \<le> Suc (length m)"
  by (induction m) auto


lemma jm_get_jm_set: "jm_get (jm_set k v m) k' = (if k' = k then Some v else jm_get m k')"
  by (induction m) (auto simp: jm_get_def)

lemma jm_get_jm_delete: "jm_get (jm_delete k m) k' = (if k' = k then None else jm_get m k')"
  by (induction m) (auto simp: jm_get_def jm_delete_def)

lemma jm_get_in_set: "jm_get m k = Some v \<Longrightarrow> (k, v) \<in> set m"
  by (simp add: jm_get_def map_of_SomeD)

lemma math_min_Min: "ks \<noteq> [] \<Longrightarrow> math_min ks = Some (Min (set ks))"
  by (cases ks) (simp_all add: math_min_def Min.set_eq_fold[symmetric])

lemma length_jm_delete_mem:
  "k \<in> fst ` set m \<Longrightarrow> length (jm_delete k m) < length m"
  unfolding jm_delete_def by (auto intro: length_filter_less)

lemma history_limit_eq:
  "history_limit h =
     (if jm_size h > 100 then jm_delete (Min (set (jm_keys h))) h else h)"
proof (cases "jm_size h > 100")
  case True
  then have "jm_keys h \<noteq> []" by (auto simp: jm_size_def jm_keys_def)
  with True show ?thesis by (simp add: history_limit_def math_min_Min)
next
  case False
  then show ?thesis by (simp add: history_limit_def)
qed

lemma history_record_size:
  assumes "jm_size h \<le> 100"
  shows "jm_size (history_record p h) \<le> 100"
proof -
  let ?h1 = "jm_set (pkt_id p) p h"
  have le: "length ?h1 \<le> 101" using assms length_jm_set[of "pkt_id p" p h] by (simp add: jm_size_def)
  show ?thesis
  proof (cases "jm_size ?h1 > 100")
    case True
    have ne: "set (jm_keys ?h1) \<noteq> {}" using True by (auto simp: jm_size_def jm_keys_def)
    have "Min (set (jm_keys ?h1)) \<in> set (jm_keys ?h1)" using ne by (intro Min_in) auto
    then have "Min (set (jm_keys ?h1)) \<in> fst ` set ?h1" by (simp add: jm_keys_def)
    from length_jm_delete_mem[OF this] le True show ?thesis
      by (simp add: history_record_def history_limit_eq jm_size_def)
  next
    case False
    then show ?thesis by (simp add: history_record_def history_limit_eq)
  qed
qed

lemma keys_jm_set: "set (jm_keys (jm_set k v m)) = insert k (set (jm_keys m))"
  unfolding jm_keys_def by (induction m) (fastforce split: if_splits)+

lemma distinct_jm_set: "distinct (jm_keys m) \<Longrightarrow> distinct (jm_keys (jm_set k v m))"
proof (induction m)
  case Nil
  show ?case by (simp add: jm_keys_def)
next
  case (Cons e m)
  obtain k' v' where e: "e = (k', v')" by (cases e)
  from Cons have d: "distinct (jm_keys (jm_set k v m))" and n: "k' \<notin> set (jm_keys m)"
    by (simp_all add: jm_keys_def e)
  show ?case
  proof (cases "k' = k")
    case True
    with Cons.prems show ?thesis by (simp add: jm_keys_def e)
  next
    case False
    with n have "k' \<notin> set (jm_keys (jm_set k v m))" by (simp add: keys_jm_set)
    with d False show ?thesis by (simp add: jm_keys_def e)
  qed
qed

lemma distinct_jm_delete: "distinct (jm_keys m) \<Longrightarrow> distinct (jm_keys (jm_delete k m))"
  by (simp add: jm_keys_def jm_delete_def distinct_map_filter)

lemma history_record_distinct:
  "distinct (jm_keys h) \<Longrightarrow> distinct (jm_keys (history_record p h))"
  by (simp add: history_record_def history_limit_eq distinct_jm_set distinct_jm_delete)

lemma bounded_jm_set:
  "bounded hs \<Longrightarrow> jm_size h \<le> 100 \<Longrightarrow> distinct (jm_keys h) \<Longrightarrow> bounded (jm_set sid h hs)"
  using set_jm_set[of sid h hs] by (auto simp: bounded_def)

lemma bounded_ensure: "bounded hs \<Longrightarrow> bounded (ensure_history sid hs)"
  by (simp add: ensure_history_def bounded_jm_set jm_size_def jm_keys_def)

lemma bounded_get:
  "bounded hs \<Longrightarrow> jm_get hs sid = Some h \<Longrightarrow> jm_size h \<le> 100 \<and> distinct (jm_keys h)"
  by (auto simp: bounded_def dest!: jm_get_in_set)


section \<open>The history is touched by \<open>send\<close> and by the handshake only\<close>

lemma ch_emit [simp]: "clientHistories (emit es st) = clientHistories st"
  by (simp add: emit_def)

lemma ch_update_ws [simp]: "clientHistories (update_ws c f st) = clientHistories st"
  by (simp add: update_ws_def split: option.splits)

lemma ch_ws_close [simp]: "clientHistories (ws_close c r st) = clientHistories st"
  by (simp add: ws_close_def)

lemma ch_ws_terminate [simp]: "clientHistories (ws_terminate c st) = clientHistories st"
  by (simp add: ws_terminate_def)

lemma ch_p_send [simp]: "clientHistories (p_send c p st) = clientHistories st"
  by (simp add: p_send_def)

lemma ch_notify [simp]:
  "clientHistories (notify_connection sid st) = clientHistories st"
  "clientHistories (notify_disconnection sid st) = clientHistories st"
  by (simp_all add: notify_connection_def notify_disconnection_def)

lemma ch_fold_p_send [simp]: "clientHistories (fold (p_send c) ps st) = clientHistories st"
  by (induction ps arbitrary: st) simp_all

lemma ch_broadcast_one [simp]: "clientHistories (broadcast_one cmd d c st) = clientHistories st"
  by (simp add: broadcast_one_def Let_def split: option.splits)

lemma ch_broadcast [simp]: "clientHistories (broadcast cmd d st) = clientHistories st"
proof -
  have "clientHistories (fold (broadcast_one cmd d) cs s) = clientHistories s" for cs s
    by (induction cs arbitrary: s) simp_all
  then show ?thesis by (simp add: broadcast_def)
qed

lemma ch_sweep_client [simp]: "clientHistories (sweep_client c st) = clientHistories st"
  by (simp add: sweep_client_def Let_def split: option.splits)

lemma ch_sweep_loop [simp]: "clientHistories (sweep_loop ks st) = clientHistories st"
  by (induction ks arbitrary: st) (simp_all split: option.splits)

lemma ch_close_server [simp]: "clientHistories (close_server st) = clientHistories st"
proof -
  have "clientHistories (fold (\<lambda>c. ws_close c None) cs s) = clientHistories s" for cs s
    by (induction cs arbitrary: s) simp_all
  then show ?thesis by (simp add: close_server_def)
qed

lemma ch_replay [simp]: "clientHistories (replay c sid l st) = clientHistories st"
  by (simp add: replay_def split: option.splits)

lemma ch_on_close [simp]: "clientHistories (on_close c st) = clientHistories st"
  by (simp add: on_close_def Let_def split: option.splits)

lemma ch_send_ack [simp]: "clientHistories (send_ack c st) = clientHistories st"
  by (simp add: send_ack_def Let_def split: option.splits)

lemma ch_evict_old [simp]: "clientHistories (evict_old sid st) = clientHistories st"
  by (simp add: evict_old_def split: option.splits)

lemma ch_bind [simp]: "clientHistories (bind c sid st) = clientHistories st"
  by (simp add: bind_def)

lemma ch_accept_handshake:
  "clientHistories (accept_handshake c sid l st) = ensure_history sid (clientHistories st)"
  by (simp add: accept_handshake_def Let_def)

lemma bounded_on_message:
  "bounded (clientHistories st) \<Longrightarrow> bounded (clientHistories (on_message c raw st))"
  by (auto simp: on_message_def ch_accept_handshake bounded_ensure
           split: option.splits incoming.splits prod.splits)

lemma bounded_record:
  assumes "bounded hs" "jm_get hs sid = Some h"
  shows "bounded (jm_set sid (history_record p h) hs)"
  using assms
  by (intro bounded_jm_set history_record_size history_record_distinct) (auto dest: bounded_get)

lemma bounded_send:
  "bounded (clientHistories st) \<Longrightarrow> bounded (clientHistories (send sid cmd d st))"
  by (auto simp: send_def Let_def bounded_ensure bounded_record split: option.splits)

lemma bounded_step:
  "bounded (clientHistories st) \<Longrightarrow> bounded (clientHistories (step ev st))"
  by (cases ev)
     (simp_all add: bounded_send bounded_on_message on_connection_def on_pong_def
        sweep_def run_immediate_def split: list.splits prod.splits)

lemma bounded_run:
  "bounded (clientHistories st) \<Longrightarrow> bounded (clientHistories (run evs st))"
  unfolding run_def by (induction evs arbitrary: st) (simp_all add: bounded_step)

lemma bounded_new: "bounded (clientHistories new_server)"
  by (simp add: new_server_def bounded_def)


section \<open>What a recording \<open>send\<close> does to the history\<close>

lemma history_of_send_recorded:
  assumes "jm_get (clients st) sid = Some c" "sockets st c = Some w" "readyState w = OPEN"
    "bufferedAmount w \<le> 5000000"
  shows "history_of (send sid cmd d st) sid =
         history_record \<lparr>pkt_id = lastSentId w + 1, pkt_command = cmd, pkt_data = d\<rparr> (history_of st sid)"
proof (cases "jm_get (clientHistories st) sid")
  case None
  then show ?thesis using assms
    by (simp add: send_def Let_def ensure_history_def jm_has_def jm_get_def[symmetric]
        jm_get_jm_set history_of_def p_send_def emit_def)
next
  case (Some h)
  then show ?thesis using assms
    by (simp add: send_def Let_def ensure_history_def jm_has_def jm_get_def[symmetric]
        jm_get_jm_set history_of_def p_send_def emit_def)
qed


section \<open>Sending without an open connection\<close>

text \<open>
  C10. When the session has no socket in the registry, or its socket is not in the
  \<open>OPEN\<close> ready state, \<open>send\<close> returns with the server exactly as it was: nothing
  is added to the trace (nothing is transmitted), no history changes, the socket's
  counter keeps its value, and the registry is the same.
\<close>

theorem send_without_open_connection:
  assumes "\<forall>c w. jm_get (clients st) sid = Some c \<and> sockets st c = Some w \<longrightarrow> readyState w \<noteq> OPEN"
  shows "send sid cmd d st = st"
  using assms by (auto simp: send_def split: option.splits)


section \<open>The bound on the history\<close>

text \<open>
  C3. After any run of the server from its creation (any sequence of sends, and of
  every other event), each session's history holds at most 100 entries (under ids
  that are all different, so deleting an id removes one entry). And a
  \<open>send\<close> that records its packet leaves the history with the packet set under
  its id and, when that made the size pass 100, with the entry of the least id
  deleted.
\<close>

theorem history_bounded_smallest_evicted:
  "jm_size (history_of (run evs new_server) s) \<le> 100 \<and>
   distinct (jm_keys (history_of (run evs new_server) s)) \<and>
   (\<forall>c w. jm_get (clients st) sid = Some c \<and> sockets st c = Some w \<and> readyState w = OPEN \<and>
           bufferedAmount w \<le> 5000000 \<longrightarrow>
      (let p = \<lparr>pkt_id = lastSentId w + 1, pkt_command = cmd, pkt_data = d\<rparr>;
           h1 = jm_set (pkt_id p) p (history_of st sid)
       in history_of (send sid cmd d st) sid =
            (if jm_size h1 > 100 then jm_delete (Min (set (jm_keys h1))) h1 else h1)))"
proof (intro conjI)
  have b: "bounded (clientHistories (run evs new_server))"
    by (rule bounded_run[OF bounded_new])
  then show "jm_size (history_of (run evs new_server) s) \<le> 100"
    by (auto simp: history_of_def jm_size_def dest: bounded_get split: option.splits)
  from b show "distinct (jm_keys (history_of (run evs new_server) s))"
    by (auto simp: history_of_def jm_keys_def dest: bounded_get split: option.splits)
next
  show "\<forall>c w. jm_get (clients st) sid = Some c \<and> sockets st c = Some w \<and> readyState w = OPEN \<and>
           bufferedAmount w \<le> 5000000 \<longrightarrow>
      (let p = \<lparr>pkt_id = lastSentId w + 1, pkt_command = cmd, pkt_data = d\<rparr>;
           h1 = jm_set (pkt_id p) p (history_of st sid)
       in history_of (send sid cmd d st) sid =
            (if jm_size h1 > 100 then jm_delete (Min (set (jm_keys h1))) h1 else h1))"
    by (auto simp: history_of_send_recorded history_record_def history_limit_eq Let_def)
qed

theorem history_bounded_smallest_evicted_witness:
  "jm_keys (history_of full_server ''s'') = [2..<102] \<and>
   jm_keys (history_of (send ''s'' ''x'' Null full_server) ''s'') = [3..<103]"
proof -
  have h: "history_of full_server ''s'' = map entry [2..<102]"
    by (simp add: full_server_def new_server_def history_of_def jm_get_def)
  have pre: "jm_get (clients full_server) ''s'' = Some 0 \<and>
        sockets full_server 0 = Some \<lparr>isAlive = True, lastSentId = 101, sessionId = Some ''s'',
                         readyState = OPEN, bufferedAmount = 0\<rparr> \<and>
        readyState \<lparr>isAlive = True, lastSentId = 101, sessionId = Some ''s'',
                         readyState = OPEN, bufferedAmount = 0\<rparr> = OPEN \<and>
        bufferedAmount \<lparr>isAlive = True, lastSentId = 101, sessionId = Some ''s'',
                         readyState = OPEN, bufferedAmount = 0\<rparr> \<le> 5000000"
    by (simp add: full_server_def new_server_def jm_get_def)
  have "history_of (send ''s'' ''x'' Null full_server) ''s'' =
        (let p = \<lparr>pkt_id = 101 + 1, pkt_command = ''x'', pkt_data = Null\<rparr>;
             h1 = jm_set (pkt_id p) p (history_of full_server ''s'')
         in if jm_size h1 > 100 then jm_delete (Min (set (jm_keys h1))) h1 else h1)"
    using history_bounded_smallest_evicted[of "[]" "''s''" full_server "''s''" "''x''" Null] pre
    by (simp add: Let_def)
  then have "jm_keys (history_of (send ''s'' ''x'' Null full_server) ''s'') = [3..<103]"
    unfolding h by (simp add: Let_def upt_rec entry_def jm_keys_def jm_size_def jm_delete_def)
  moreover have "jm_keys (history_of full_server ''s'') = [2..<102]"
    unfolding h by (simp add: upt_rec entry_def jm_keys_def)
  ultimately show ?thesis by simp
qed

section \<open>Evaluating runs\<close>

lemmas server_defs =
  run_def new_server_def on_connection_def on_pong_def on_message_def on_close_def
  handshake_def accept_handshake_def evict_old_def bind_def send_ack_def
  ensure_history_def ws_close_def ws_terminate_def update_ws_def begin_closing_def
  emit_def p_send_def notify_connection_def notify_disconnection_def
  send_def broadcast_def broadcast_one_def sweep_def sweep_client_def
  run_immediate_def replay_def replay_packets_def history_record_def history_limit_def
  jm_get_def jm_has_def jm_delete_def jm_keys_def jm_values_def jm_size_def math_min_def
  history_of_def

lemma closing_server_registry: "jm_get (clients closing_server) ''s'' = Some 0"
  by (simp add: closing_server_def server_defs)

lemma closing_server_socket:
  "sockets closing_server 0 =
     Some \<lparr>isAlive = True, lastSentId = 1, sessionId = Some ''s'',
           readyState = CLOSING, bufferedAmount = 6000000\<rparr>"
  by (simp add: closing_server_def server_defs)

theorem send_without_open_connection_witness:
  "jm_get (clients closing_server) ''s'' = Some 0 \<and>
   map_option readyState (sockets closing_server 0) = Some CLOSING \<and>
   send ''s'' ''x'' Null closing_server = closing_server"
proof -
  have h: "\<forall>c w. jm_get (clients closing_server) ''s'' = Some c \<and> sockets closing_server c = Some w
           \<longrightarrow> readyState w \<noteq> OPEN"
    by (auto simp: closing_server_registry closing_server_socket)
  from send_without_open_connection[OF h] show ?thesis
    by (simp add: closing_server_registry closing_server_socket)
qed


section \<open>Backpressure\<close>

text \<open>
  C8, as stated, fails. The session's socket has 6,000,000 unsent bytes, but the server
  has already begun to close it, so it is not \<open>OPEN\<close>: \<open>send\<close> returns at its first
  guard. The socket is not terminated, the session stays in the registry and no
  disconnection callback is called.
\<close>

theorem backpressure_not_open_counterexample:
  "jm_get (clients closing_server) ''s'' = Some 0 \<and>
   map_option bufferedAmount (sockets closing_server 0) = Some 6000000 \<and>
   disconnectionListeners closing_server = [7] \<and>
   trace (send ''s'' ''x'' Null closing_server) = trace closing_server \<and>
   jm_get (clients (send ''s'' ''x'' Null closing_server)) ''s'' = Some 0"
proof -
  have "send ''s'' ''x'' Null closing_server = closing_server"
    by (simp add: send_def closing_server_registry closing_server_socket)
  moreover have "disconnectionListeners closing_server = [7]"
    by (simp add: closing_server_def server_defs)
  ultimately show ?thesis
    by (simp add: closing_server_registry closing_server_socket)
qed

text \<open>
  C8, amended. When \<open>send\<close> finds the session's socket in the registry, \<open>OPEN\<close>, with
  more than 5,000,000 unsent bytes, it terminates the socket, calls every
  disconnection callback with the session id, and does nothing else to the outside
  (the packet is not handed to the socket); the session is no longer in the registry
  and no history has changed.
\<close>

theorem backpressure_terminates_and_drops:
  assumes "jm_get (clients st) sid = Some c" and "sockets st c = Some w"
    and "readyState w = OPEN" and "bufferedAmount w > 5000000"
  shows "trace (send sid cmd d st) =
           trace st @ Terminate c # map (\<lambda>fn. DisconnectionCb fn sid) (disconnectionListeners st)
         \<and> jm_get (clients (send sid cmd d st)) sid = None
         \<and> clientHistories (send sid cmd d st) = clientHistories st
         \<and> sent_ids (trace (send sid cmd d st)) = sent_ids (trace st)"
proof -
  have s: "sent_ids (xs @ ys) = sent_ids xs @ sent_ids ys" for xs ys
    by (induction xs rule: sent_ids.induct) simp_all
  have n: "sent_ids (map (\<lambda>fn. DisconnectionCb fn sid) fs) = []" for fs
    by (induction fs) simp_all
  have t: "trace (send sid cmd d st) =
           trace st @ Terminate c # map (\<lambda>fn. DisconnectionCb fn sid) (disconnectionListeners st)"
    using assms
    by (simp add: send_def Let_def notify_disconnection_def ws_terminate_def emit_def update_ws_def)
  have r: "jm_get (clients (send sid cmd d st)) sid = None"
    using assms
    by (simp add: send_def Let_def notify_disconnection_def ws_terminate_def emit_def update_ws_def
        jm_get_jm_delete)
  have h: "clientHistories (send sid cmd d st) = clientHistories st"
    using assms by (simp add: send_def Let_def)
  from t r h show ?thesis by (simp add: s n)
qed

lemma congested_server_registry: "jm_get (clients congested_server) ''s'' = Some 0"
  by (simp add: congested_server_def server_defs)

lemma congested_server_socket:
  "sockets congested_server 0 =
     Some \<lparr>isAlive = True, lastSentId = 1, sessionId = Some ''s'',
           readyState = OPEN, bufferedAmount = 6000000\<rparr>"
  by (simp add: congested_server_def server_defs)

theorem backpressure_terminates_and_drops_witness:
  "jm_get (clients congested_server) ''s'' = Some 0 \<and>
   map_option readyState (sockets congested_server 0) = Some OPEN \<and>
   map_option bufferedAmount (sockets congested_server 0) = Some 6000000 \<and>
   trace (send ''s'' ''x'' Null congested_server) =
     trace congested_server @ [Terminate 0, DisconnectionCb 7 ''s''] \<and>
   jm_get (clients (send ''s'' ''x'' Null congested_server)) ''s'' = None \<and>
   clientHistories (send ''s'' ''x'' Null congested_server) = clientHistories congested_server"
proof -
  let ?w = "\<lparr>isAlive = True, lastSentId = 1, sessionId = Some ''s'',
           readyState = OPEN, bufferedAmount = 6000000\<rparr>"
  have o: "readyState ?w = OPEN" and b: "bufferedAmount ?w > 5000000" by simp_all
  have l: "disconnectionListeners congested_server = [7]"
    by (simp add: congested_server_def server_defs)
  from backpressure_terminates_and_drops[OF congested_server_registry congested_server_socket o b,
      of "''x''" Null] l
  show ?thesis by (simp add: congested_server_registry congested_server_socket)
qed

section \<open>The client's last received id never decreases\<close>

lemma lri_emit_c [simp]: "lastReceivedId (emit_c es cl) = lastReceivedId cl"
  by (simp add: emit_c_def)

lemma lri_send_c [simp]: "lastReceivedId (send_c cmd d cl) = lastReceivedId cl"
  by (simp add: send_c_def Let_def)

lemma lri_call_listener [simp]: "lastReceivedId (call_listener d l cl) = lastReceivedId cl"
  by (cases l) simp_all

lemma lri_listeners [simp]:
  "lastReceivedId (fold (call_listener d) ls cl) = lastReceivedId cl"
  by (induction ls arbitrary: cl) simp_all

lemma lri_reconnect [simp]: "lastReceivedId (p_reconnect cl) = lastReceivedId cl"
  by (simp add: p_reconnect_def Let_def)

lemma lri_stopPing [simp]: "lastReceivedId (p_stopPing cl) = lastReceivedId cl"
  by (simp add: p_stopPing_def)

lemma lri_startPing [simp]: "lastReceivedId (p_startPing cl) = lastReceivedId cl"
  by (simp add: p_startPing_def)

lemma lri_close_c [simp]: "lastReceivedId (close_c cl) = lastReceivedId cl"
  by (simp add: close_c_def Let_def split: option.splits)

lemma lri_handleMessage: "lastReceivedId cl \<le> lastReceivedId (p_handleMessage msg cl)"
  by (simp add: p_handleMessage_def Let_def split: option.splits)

lemma lri_handled:
  "pkt_id msg \<noteq> 0 \<Longrightarrow> pkt_id msg \<le> lastReceivedId (p_handleMessage msg cl)"
  by (simp add: p_handleMessage_def Let_def split: option.splits)

lemma lri_step: "lastReceivedId cl \<le> lastReceivedId (step_c ev cl)"
proof (cases ev)
  case (WsMessage raw)
  then show ?thesis
    by (cases raw) (simp_all add: ws_onmessage_def lri_handleMessage)
qed (simp_all add: open_c_def destroy_def on_c_def off_c_def ws_onopen_def ws_onclose_def
      handshake_timeout_def ping_tick_def reconnect_timeout_def Let_def split: option.splits)

lemma lri_run: "lastReceivedId cl \<le> lastReceivedId (run_c evs cl)"
  unfolding run_c_def
proof (induction evs arbitrary: cl)
  case Nil
  show ?case by simp
next
  case (Cons ev evs)
  have "lastReceivedId cl \<le> lastReceivedId (step_c ev cl)" by (rule lri_step)
  also have "\<dots> \<le> lastReceivedId (fold step_c evs (step_c ev cl))" by (rule Cons.IH)
  finally show ?case by simp
qed


section \<open>Duplicate suppression\<close>

text \<open>
  C6. A packet whose id is not 0 and is at most \<open>lastReceivedId\<close> leaves the client
  exactly as it was: no listener is called and \<open>lastReceivedId\<close> keeps its value.
  Consequently, once a packet with an id other than 0 has been handled, a later
  packet with the same id is discarded, whatever the client has done in between:
  no id is delivered to the listeners twice.
\<close>

theorem duplicate_packets_discarded:
  "(pkt_id msg \<noteq> 0 \<and> pkt_id msg \<le> lastReceivedId cl \<longrightarrow> p_handleMessage msg cl = cl) \<and>
   (pkt_id msg \<noteq> 0 \<and> pkt_id msg' = pkt_id msg \<longrightarrow>
      p_handleMessage msg' (run_c evs (p_handleMessage msg cl)) =
        run_c evs (p_handleMessage msg cl))"
proof (intro conjI impI)
  assume "pkt_id msg \<noteq> 0 \<and> pkt_id msg \<le> lastReceivedId cl"
  then show "p_handleMessage msg cl = cl" by (simp add: p_handleMessage_def)
next
  assume a: "pkt_id msg \<noteq> 0 \<and> pkt_id msg' = pkt_id msg"
  let ?cl = "run_c evs (p_handleMessage msg cl)"
  have "pkt_id msg \<le> lastReceivedId (p_handleMessage msg cl)" using a by (simp add: lri_handled)
  also have "\<dots> \<le> lastReceivedId ?cl" by (rule lri_run)
  finally have "pkt_id msg' \<le> lastReceivedId ?cl" using a by simp
  with a show "p_handleMessage msg' ?cl = ?cl" by (simp add: p_handleMessage_def)
qed

lemmas client_defs =
  run_c_def new_client_def emit_c_def send_c_def p_handleMessage_def p_reconnect_def
  p_startPing_def p_stopPing_def open_c_def handshakePayload_def ws_onopen_def
  ws_onmessage_def ws_onclose_def handshake_timeout_def ping_tick_def reconnect_timeout_def
  close_c_def destroy_def on_c_def off_c_def unopened_attempts_def jm_get_def

theorem duplicate_packets_discarded_witness:
  "pkt_id chat3 \<noteq> 0 \<and> lastReceivedId listening_client = 0 \<and>
   trace_c (p_handleMessage chat3 listening_client) = [Deliver 1 (Opaque ''hi'')] \<and>
   lastReceivedId (p_handleMessage chat3 listening_client) = 3 \<and>
   p_handleMessage chat3 (p_handleMessage chat3 listening_client) =
     p_handleMessage chat3 listening_client"
proof -
  have d: "pkt_id chat3 \<noteq> 0 \<and> pkt_id chat3 = pkt_id chat3" by (simp add: chat3_def)
  have "p_handleMessage chat3 (run_c [] (p_handleMessage chat3 listening_client)) =
        run_c [] (p_handleMessage chat3 listening_client)"
    using duplicate_packets_discarded[of chat3 listening_client chat3 "[]"] d by blast
  then have "p_handleMessage chat3 (p_handleMessage chat3 listening_client) =
     p_handleMessage chat3 listening_client" by (simp add: run_c_def)
  moreover have "trace_c (p_handleMessage chat3 listening_client) = [Deliver 1 (Opaque ''hi'')]"
    by (simp add: listening_client_def chat3_def client_defs)
  moreover have "lastReceivedId (p_handleMessage chat3 listening_client) = 3"
    by (simp add: listening_client_def chat3_def client_defs)
  moreover have "lastReceivedId listening_client = 0"
    by (simp add: listening_client_def client_defs)
  ultimately show ?thesis using d by simp
qed

section \<open>Reconnection\<close>

lemma reconnect_delays_append:
  "reconnect_delays (xs @ ys) = reconnect_delays xs @ reconnect_delays ys"
  by (induction xs rule: reconnect_delays.induct) simp_all

lemma reconnect_delays_close_cbs [simp]: "reconnect_delays (map (\<lambda>fn. CloseCb fn r) fs) = []"
  by (induction fs) simp_all

lemma reconnect_delays_open_cbs [simp]: "reconnect_delays (map OpenCb fs) = []"
  by (induction fs) simp_all

lemma reconnect_delays_flush [simp]: "reconnect_delays (map WsSend ps) = []"
  by (induction ps) simp_all

text \<open>A close of the socket while reconnection is permitted and the counter is at
  most 5 counts one attempt and schedules it.\<close>

lemma onclose_schedules:
  assumes "mayReconnect cl" and "reconnectCount cl \<le> 5"
  shows "mayReconnect (ws_onclose r cl)"
    and "reconnectCount (ws_onclose r cl) = reconnectCount cl + 1"
    and "reconnect_delays (trace_c (ws_onclose r cl)) =
           reconnect_delays (trace_c cl) @ [1000 * (reconnectCount cl + 1)]"
  using assms
  by (simp_all add: ws_onclose_def p_stopPing_def p_reconnect_def emit_c_def Let_def
      reconnect_delays_append)

lemma onclose_gives_up:
  assumes "mayReconnect cl" and "reconnectCount cl > 5"
  shows "\<not> mayReconnect (ws_onclose r cl)"
    and "reconnect_delays (trace_c (ws_onclose r cl)) = reconnect_delays (trace_c cl)"
  using assms
  by (simp_all add: ws_onclose_def p_stopPing_def p_reconnect_def emit_c_def Let_def
      reconnect_delays_append)

lemma timeout_opens:
  "mayReconnect (reconnect_timeout cl) = mayReconnect cl"
  "reconnectCount (reconnect_timeout cl) = reconnectCount cl"
  "reconnect_delays (trace_c (reconnect_timeout cl)) = reconnect_delays (trace_c cl)"
  by (simp_all add: reconnect_timeout_def open_c_def emit_c_def reconnect_delays_append)

lemma unopened_attempts_Suc:
  "run_c (unopened_attempts (Suc n)) cl =
     run_c (unopened_attempts n) (ws_onclose [] (reconnect_timeout cl))"
  by (simp add: unopened_attempts_def run_c_def)

lemma unopened_attempts_count:
  assumes "mayReconnect cl" and "reconnectCount cl + n \<le> 6"
  shows "mayReconnect (run_c (unopened_attempts n) cl) \<and>
         reconnectCount (run_c (unopened_attempts n) cl) = reconnectCount cl + n \<and>
         reconnect_delays (trace_c (run_c (unopened_attempts n) cl)) =
           reconnect_delays (trace_c cl) @
             map (\<lambda>k. 1000 * k) [reconnectCount cl + 1 ..< reconnectCount cl + n + 1]"
  using assms
proof (induction n arbitrary: cl)
  case 0
  then show ?case by (simp add: unopened_attempts_def run_c_def)
next
  case (Suc n)
  let ?cl = "ws_onclose [] (reconnect_timeout cl)"
  have m: "mayReconnect (reconnect_timeout cl)" and c: "reconnectCount (reconnect_timeout cl) \<le> 5"
    using Suc.prems by (simp_all add: timeout_opens)
  have m': "mayReconnect ?cl" and c': "reconnectCount ?cl = reconnectCount cl + 1"
    and d': "reconnect_delays (trace_c ?cl) =
               reconnect_delays (trace_c cl) @ [1000 * (reconnectCount cl + 1)]"
    using onclose_schedules[OF m c, of "[]"] by (simp_all add: timeout_opens)
  have "reconnectCount ?cl + n \<le> 6" using Suc.prems c' by simp
  from Suc.IH[OF m' this] c' d' show ?case
    by (simp add: unopened_attempts_Suc upt_rec[of "Suc (reconnectCount cl)"])
qed

text \<open>Once reconnection is forbidden it stays forbidden, and no turn of the client
  schedules a reconnect: nothing sets \<open>mayReconnect\<close> back, not even \<open>open\<close>.\<close>

lemma mr_emit_c [simp]: "mayReconnect (emit_c es cl) = mayReconnect cl"
  by (simp add: emit_c_def)

lemma rd_emit_c [simp]:
  "reconnect_delays (trace_c (emit_c es cl)) = reconnect_delays (trace_c cl) @ reconnect_delays es"
  by (simp add: emit_c_def reconnect_delays_append)

lemma stopped_call_listener:
  "mayReconnect (call_listener d l cl) = mayReconnect cl \<and>
   reconnect_delays (trace_c (call_listener d l cl)) = reconnect_delays (trace_c cl)"
  by (cases l) simp_all

lemma stopped_listeners:
  "mayReconnect (fold (call_listener d) ls cl) = mayReconnect cl \<and>
   reconnect_delays (trace_c (fold (call_listener d) ls cl)) = reconnect_delays (trace_c cl)"
  by (induction ls arbitrary: cl) (simp_all add: stopped_call_listener)

lemma stopped_handleMessage:
  "mayReconnect (p_handleMessage msg cl) = mayReconnect cl \<and>
   reconnect_delays (trace_c (p_handleMessage msg cl)) = reconnect_delays (trace_c cl)"
  by (simp add: p_handleMessage_def Let_def stopped_listeners split: option.splits)

lemma stopped_send_c:
  "mayReconnect (send_c cmd d cl) = mayReconnect cl \<and>
   reconnect_delays (trace_c (send_c cmd d cl)) = reconnect_delays (trace_c cl)"
  by (simp add: send_c_def Let_def)

lemma stopped_stopPing:
  "mayReconnect (p_stopPing cl) = mayReconnect cl \<and>
   reconnect_delays (trace_c (p_stopPing cl)) = reconnect_delays (trace_c cl)"
  by (simp add: p_stopPing_def)

lemma stopped_startPing:
  "mayReconnect (p_startPing cl) = mayReconnect cl \<and>
   reconnect_delays (trace_c (p_startPing cl)) = reconnect_delays (trace_c cl)"
  by (simp add: p_startPing_def)

lemma stopped_reconnect:
  "\<not> mayReconnect cl \<Longrightarrow> p_reconnect cl = cl"
  by (simp add: p_reconnect_def)

lemma stopped_close_c:
  "\<not> mayReconnect (close_c cl) \<and>
   reconnect_delays (trace_c (close_c cl)) = reconnect_delays (trace_c cl)"
  by (simp add: close_c_def Let_def split: option.splits)

lemma stopped_step:
  assumes "\<not> mayReconnect cl"
  shows "\<not> mayReconnect (step_c ev cl) \<and>
         reconnect_delays (trace_c (step_c ev cl)) = reconnect_delays (trace_c cl)"
proof (cases ev)
  case (WsMessage raw)
  then show ?thesis using assms
    by (cases raw) (simp_all add: ws_onmessage_def stopped_handleMessage)
next
  case WsOpened
  then show ?thesis using assms
    by (simp add: ws_onopen_def Let_def stopped_startPing stopped_send_c)
next
  case (WsClosed r)
  then show ?thesis using assms
    by (simp add: ws_onclose_def Let_def stopped_stopPing)
next
  case CallDestroy
  then show ?thesis by (simp add: destroy_def stopped_stopPing stopped_close_c)
next
  case PingTick
  then show ?thesis using assms
    by (simp add: ping_tick_def stopped_reconnect stopped_send_c)
qed (use assms in \<open>simp_all add: open_c_def on_c_def off_c_def stopped_send_c stopped_close_c
      handshake_timeout_def stopped_reconnect reconnect_timeout_def split: option.splits\<close>)

lemma stopped_run:
  assumes "\<not> mayReconnect cl"
  shows "\<not> mayReconnect (run_c evs cl) \<and>
         reconnect_delays (trace_c (run_c evs cl)) = reconnect_delays (trace_c cl)"
  using assms unfolding run_c_def
proof (induction evs arbitrary: cl)
  case Nil
  then show ?case by simp
next
  case (Cons ev evs)
  from stopped_step[OF Cons.prems] Cons.IH[of "step_c ev cl"] show ?case by simp
qed


lemma unopened_attempts_add:
  "unopened_attempts (a + b) = unopened_attempts a @ unopened_attempts b"
  by (simp add: unopened_attempts_def replicate_add)

lemma run_c_append: "run_c (xs @ ys) cl = run_c ys (run_c xs cl)"
  by (simp add: run_c_def)

lemma run_c_Cons: "run_c (ev # evs) cl = run_c evs (step_c ev cl)"
  by (simp add: run_c_def)

text \<open>The connection closes with the counter at 0, then \<open>m\<close> attempts fail.\<close>

lemma close_then_unopened_attempts:
  assumes "mayReconnect cl" and "reconnectCount cl = 0" and "m \<le> 5"
  shows "mayReconnect (run_c (WsClosed r # unopened_attempts m) cl) \<and>
      reconnectCount (run_c (WsClosed r # unopened_attempts m) cl) = m + 1 \<and>
      reconnect_delays (trace_c (run_c (WsClosed r # unopened_attempts m) cl)) =
        reconnect_delays (trace_c cl) @ map (\<lambda>k. 1000 * k) [1 ..< m + 2]"
proof -
  let ?c1 = "ws_onclose r cl"
  have c1: "mayReconnect ?c1" "reconnectCount ?c1 = 1"
    "reconnect_delays (trace_c ?c1) = reconnect_delays (trace_c cl) @ [1000]"
    using onclose_schedules[of cl r] assms by simp_all
  have le: "reconnectCount ?c1 + m \<le> 6" using assms c1 by simp
  have e: "[Suc 0 ..< Suc (Suc m)] = Suc 0 # [Suc (Suc 0) ..< Suc (Suc m)]"
    by (simp add: upt_conv_Cons del: upt_Suc)
  from unopened_attempts_count[OF c1(1) le] c1 show ?thesis
    by (simp add: e run_c_Cons del: upt_Suc)
qed

text \<open>The counter and the scheduled delays move together. \<open>_reconnect\<close> is the only
  code that schedules a reconnect or raises the counter, and \<open>onopen\<close> the only code
  that lowers it.\<close>

lemma rc_emit_c [simp]: "reconnectCount (emit_c es cl) = reconnectCount cl"
  by (simp add: emit_c_def)

lemma rc_send_c [simp]: "reconnectCount (send_c cmd d cl) = reconnectCount cl"
  by (simp add: send_c_def Let_def)

lemma rc_call_listener [simp]: "reconnectCount (call_listener d l cl) = reconnectCount cl"
  by (cases l) simp_all

lemma rc_listeners [simp]: "reconnectCount (fold (call_listener d) ls cl) = reconnectCount cl"
  by (induction ls arbitrary: cl) simp_all

lemma rc_handleMessage [simp]: "reconnectCount (p_handleMessage msg cl) = reconnectCount cl"
  by (simp add: p_handleMessage_def Let_def split: option.splits)

lemma rc_stopPing [simp]: "reconnectCount (p_stopPing cl) = reconnectCount cl"
  by (simp add: p_stopPing_def)

lemma rc_close_c [simp]: "reconnectCount (close_c cl) = reconnectCount cl"
  by (simp add: close_c_def Let_def split: option.splits)

lemma counted_same:
  "reconnectCount cl' = reconnectCount cl \<Longrightarrow>
   reconnect_delays (trace_c cl') = reconnect_delays (trace_c cl) \<Longrightarrow> counted cl cl'"
  by (simp add: counted_def)

lemma counted_from:
  "reconnectCount cl1 = reconnectCount cl \<Longrightarrow>
   reconnect_delays (trace_c cl1) = reconnect_delays (trace_c cl) \<Longrightarrow>
   counted cl1 cl' \<Longrightarrow> counted cl cl'"
  by (simp add: counted_def)

lemma counted_trans:
  assumes "counted a b" and "counted b c"
  shows "counted a c"
proof -
  let ?a = "reconnectCount a" and ?b = "reconnectCount b" and ?c = "reconnectCount c"
  have ab: "?a \<le> ?b" and bc: "?b \<le> ?c" and b6: "?b \<le> max ?a 6" and c6: "?c \<le> max ?b 6"
    using assms by (simp_all add: counted_def)
  have "[?a + 1 ..< (?b + 1) + (?c - ?b)] = [?a + 1 ..< ?b + 1] @ [?b + 1 ..< (?b + 1) + (?c - ?b)]"
    using ab by (intro upt_add_eq_append) simp
  then have u: "[?a + 1 ..< ?c + 1] = [?a + 1 ..< ?b + 1] @ [?b + 1 ..< ?c + 1]"
    using bc by simp
  have "reconnect_delays (trace_c c) =
          reconnect_delays (trace_c a) @ map (\<lambda>k. 1000 * k) [?a + 1 ..< ?b + 1] @
            map (\<lambda>k. 1000 * k) [?b + 1 ..< ?c + 1]"
    using assms by (simp add: counted_def)
  then have "reconnect_delays (trace_c c) =
          reconnect_delays (trace_c a) @ map (\<lambda>k. 1000 * k) [?a + 1 ..< ?c + 1]"
    by (simp only: u map_append)
  moreover have "?a \<le> ?c" using ab bc by simp
  moreover have "?c \<le> max ?a 6" using b6 c6 by simp
  ultimately show ?thesis by (simp add: counted_def)
qed

lemma counted_reconnect: "counted cl (p_reconnect cl)"
  by (simp add: counted_def p_reconnect_def Let_def)

lemma counted_step:
  assumes "ev \<noteq> WsOpened"
  shows "counted cl (step_c ev cl)"
proof (cases ev)
  case (WsMessage raw)
  then show ?thesis
    by (cases raw) (simp_all add: ws_onmessage_def counted_same stopped_handleMessage)
next
  case WsOpened
  with assms show ?thesis by simp
next
  case (WsClosed r)
  let ?cl1 = "cl\<lparr>ws := Some CLOSED, alive := False\<rparr>"
  let ?cl2 = "p_stopPing (emit_c (map (\<lambda>fn. CloseCb fn (if r = [] then ''connection closed'' else r))
                 (closeListeners ?cl1)) ?cl1)"
  have c: "reconnectCount ?cl2 = reconnectCount cl"
    and d: "reconnect_delays (trace_c ?cl2) = reconnect_delays (trace_c cl)"
    by (simp_all add: stopped_stopPing)
  have e: "step_c ev cl = (if mayReconnect ?cl2 then p_reconnect ?cl2 else ?cl2)"
    using WsClosed by (simp only: step_c.simps ws_onclose_def Let_def)
  show ?thesis
  proof (cases "mayReconnect ?cl2")
    case True
    with counted_from[OF c d counted_reconnect] show ?thesis by (simp only: e if_True)
  next
    case False
    with counted_same[OF c d] show ?thesis by (simp only: e if_False)
  qed
next
  case HandshakeTimeout
  then show ?thesis by (simp add: handshake_timeout_def counted_reconnect counted_same)
next
  case PingTick
  then show ?thesis
    by (simp add: ping_tick_def counted_reconnect counted_same stopped_send_c)
next
  case CallDestroy
  then show ?thesis by (simp add: destroy_def counted_same stopped_stopPing stopped_close_c)
qed (simp_all add: counted_same open_c_def on_c_def off_c_def stopped_send_c stopped_close_c
      reconnect_timeout_def split: option.splits)

lemma counted_run:
  assumes "WsOpened \<notin> set evs"
  shows "counted cl (run_c evs cl)"
  using assms unfolding run_c_def
proof (induction evs arbitrary: cl)
  case Nil
  show ?case by (simp add: counted_same)
next
  case (Cons ev evs)
  from Cons.prems have "ev \<noteq> WsOpened" and "WsOpened \<notin> set evs" by auto
  then have "counted cl (step_c ev cl)"
    and "counted (step_c ev cl) (fold step_c evs (step_c ev cl))"
    using Cons.IH by (simp_all add: counted_step)
  then have "counted cl (fold step_c evs (step_c ev cl))" by (rule counted_trans)
  then show ?case by simp
qed

text \<open>A socket that opens puts the counter back to 0 and starts a new handshake.\<close>

lemma onopen_resets:
  "reconnectCount (ws_onopen cl) = 0"
  "handshakeComplete (ws_onopen cl) = False"
  "mayReconnect (ws_onopen cl) = mayReconnect cl"
  "reconnect_delays (trace_c (ws_onopen cl)) = reconnect_delays (trace_c cl)"
  by (simp_all add: ws_onopen_def send_c_def p_startPing_def emit_c_def Let_def
      reconnect_delays_append)

text \<open>Attempts whose socket opens and gets no acknowledgement are each rescheduled
  after 1000 ms, for ever.\<close>

lemma unanswered_attempts_reschedule:
  assumes "mayReconnect cl"
  shows "mayReconnect (run_c (unanswered_attempts n) cl) \<and>
         reconnect_delays (trace_c (run_c (unanswered_attempts n) cl)) =
           reconnect_delays (trace_c cl) @ replicate n 1000"
  using assms
proof (induction n arbitrary: cl)
  case 0
  then show ?case by (simp add: unanswered_attempts_def run_c_def)
next
  case (Suc n)
  let ?o = "ws_onopen (reconnect_timeout cl)"
  let ?cl = "handshake_timeout ?o"
  have o: "mayReconnect ?o" "reconnectCount ?o = 0" "\<not> handshakeComplete ?o"
    "reconnect_delays (trace_c ?o) = reconnect_delays (trace_c cl)"
    using Suc.prems by (simp_all add: onopen_resets timeout_opens)
  have m: "mayReconnect ?cl"
    and d: "reconnect_delays (trace_c ?cl) = reconnect_delays (trace_c cl) @ [1000]"
    using o by (simp_all add: handshake_timeout_def p_reconnect_def Let_def)
  have "run_c (unanswered_attempts (Suc n)) cl = run_c (unanswered_attempts n) ?cl"
    by (simp add: unanswered_attempts_def run_c_def)
  with Suc.IH[OF m] d show ?case by (simp add: replicate_app_Cons_same)
qed

lemma close_then_give_up:
  assumes "mayReconnect cl" and "reconnectCount cl = 0" and "6 \<le> n"
  shows "\<not> mayReconnect (run_c (WsClosed r # unopened_attempts n @ evs) cl) \<and>
         reconnect_delays (trace_c (run_c (WsClosed r # unopened_attempts n @ evs) cl)) =
           reconnect_delays (trace_c cl) @ [1000, 2000, 3000, 4000, 5000, 6000]"
proof -
  let ?c6 = "run_c (WsClosed r # unopened_attempts 5) cl"
  have c6: "mayReconnect ?c6" "reconnectCount ?c6 = 6"
    "reconnect_delays (trace_c ?c6) =
       reconnect_delays (trace_c cl) @ [1000, 2000, 3000, 4000, 5000, 6000]"
    using close_then_unopened_attempts[OF assms(1,2), of 5 r]
    by (simp_all add: upt_rec del: upt_Suc)
  let ?t = "reconnect_timeout ?c6"
  have t: "mayReconnect ?t" "reconnectCount ?t > 5" using c6 by (simp_all add: timeout_opens)
  let ?c7 = "ws_onclose [] ?t"
  have c7: "\<not> mayReconnect ?c7"
    "reconnect_delays (trace_c ?c7) =
       reconnect_delays (trace_c cl) @ [1000, 2000, 3000, 4000, 5000, 6000]"
    using onclose_gives_up[OF t, of "[]"] c6 by (simp_all add: timeout_opens)
  have n: "n = 5 + (1 + (n - 6))" using assms(3) by simp
  have f: "unopened_attempts n =
             unopened_attempts 5 @ unopened_attempts 1 @ unopened_attempts (n - 6)"
    by (subst n) (simp only: unopened_attempts_add)
  have one: "run_c (unopened_attempts 1) c = ws_onclose [] (reconnect_timeout c)" for c
    by (simp add: unopened_attempts_def run_c_def)
  have "run_c (WsClosed r # unopened_attempts n @ evs) cl =
        run_c ((WsClosed r # unopened_attempts 5) @ unopened_attempts 1 @
                 (unopened_attempts (n - 6) @ evs)) cl"
    by (simp add: f)
  also have "\<dots> = run_c (unopened_attempts (n - 6) @ evs) ?c7"
    by (simp only: run_c_append one)
  finally have "run_c (WsClosed r # unopened_attempts n @ evs) cl =
        run_c (unopened_attempts (n - 6) @ evs) ?c7" .
  with stopped_run[OF c7(1), of "unopened_attempts (n - 6) @ evs"] c7 show ?thesis by simp
qed

text \<open>
  C7, as stated, fails, in two ways. First, a client opens, the connection is never
  established, and five reconnection attempts fail in the same way one after the
  other: reconnection is still permitted, and a sixth reconnect is scheduled (after
  6000 ms). Second, a client opens, the socket opens and no acknowledgement comes
  within 3000 ms, and seven reconnection attempts fail in the same way (the socket
  opens, the handshake times out): every reconnect is scheduled after 1000 ms, and
  reconnection is still permitted.
\<close>

theorem reconnect_attempts_counterexample:
  "mayReconnect
     (run_c ([CallOpen None, WsClosed []] @ unopened_attempts 5) (new_client ''s'')) \<and>
   reconnect_delays (trace_c
     (run_c ([CallOpen None, WsClosed []] @ unopened_attempts 5) (new_client ''s''))) =
     [1000, 2000, 3000, 4000, 5000, 6000] \<and>
   mayReconnect
     (run_c ([CallOpen None, WsOpened, HandshakeTimeout] @ unanswered_attempts 7)
        (new_client ''s'')) \<and>
   reconnect_delays (trace_c
     (run_c ([CallOpen None, WsOpened, HandshakeTimeout] @ unanswered_attempts 7)
        (new_client ''s''))) =
     [1000, 1000, 1000, 1000, 1000, 1000, 1000, 1000]"
proof -
  let ?cl = "run_c [CallOpen None] (new_client ''s'')"
  have m: "mayReconnect ?cl" and c: "reconnectCount ?cl = 0"
    and d: "reconnect_delays (trace_c ?cl) = []"
    by (simp_all add: client_defs)
  have "run_c ([CallOpen None, WsClosed []] @ unopened_attempts 5) (new_client ''s'') =
        run_c (WsClosed [] # unopened_attempts 5) ?cl"
    by (simp add: run_c_def)
  with close_then_unopened_attempts[OF m c, of 5 "[]"] d
  have first: "mayReconnect
     (run_c ([CallOpen None, WsClosed []] @ unopened_attempts 5) (new_client ''s'')) \<and>
   reconnect_delays (trace_c
     (run_c ([CallOpen None, WsClosed []] @ unopened_attempts 5) (new_client ''s''))) =
     [1000, 2000, 3000, 4000, 5000, 6000]"
    by (simp add: upt_rec del: upt_Suc)
  let ?h = "run_c [CallOpen None, WsOpened, HandshakeTimeout] (new_client ''s'')"
  have hm: "mayReconnect ?h" and hd: "reconnect_delays (trace_c ?h) = [1000]"
    by (simp_all add: client_defs Let_def)
  have "run_c ([CallOpen None, WsOpened, HandshakeTimeout] @ unanswered_attempts 7)
          (new_client ''s'') = run_c (unanswered_attempts 7) ?h"
    by (simp add: run_c_def)
  with unanswered_attempts_reschedule[OF hm, of 7] hd
  have second: "mayReconnect
     (run_c ([CallOpen None, WsOpened, HandshakeTimeout] @ unanswered_attempts 7)
        (new_client ''s'')) \<and>
   reconnect_delays (trace_c
     (run_c ([CallOpen None, WsOpened, HandshakeTimeout] @ unanswered_attempts 7)
        (new_client ''s''))) =
     [1000, 1000, 1000, 1000, 1000, 1000, 1000, 1000]"
    by (simp add: eval_nat_numeral)
  from first second show ?thesis by simp
qed

text \<open>
  C7, amended. (1) In every run of the client in which no socket opens, whatever the
  turns are (closes, timers, calls of the application), the reconnects scheduled
  during the run have the delays \<open>1000 * (c + 1)\<close>, \<open>1000 * (c + 2)\<close>, ...,
  \<open>1000 * c'\<close> milliseconds, where \<open>c\<close> and \<open>c'\<close> are the attempt counter before
  and after the run: each scheduled reconnect waits 1000 ms longer than the one
  before. The counter does not pass 6 (when it starts at 6 or less), so at most six
  reconnects are scheduled from a counter of 0. (2) One call of \<open>_reconnect\<close> while
  reconnection is permitted: with the counter at 5 or less it adds 1 to the counter
  and schedules \<open>open\<close> after 1000 ms times the new counter; with the counter past 5
  it forbids reconnection and schedules nothing. (3) In particular, when the
  counter is 0, the connection closes and then \<open>n\<close> reconnection attempts fail
  without their socket opening: for \<open>n\<close> up to 5 reconnection is still permitted and
  the delays are 1000, ..., \<open>1000 * (n + 1)\<close>; from \<open>n = 6\<close> on reconnection is
  forbidden and exactly the six delays 1000, ..., 6000 were scheduled, whatever
  happens afterwards. (4) Once reconnection is forbidden, no turn of the client
  permits it again or schedules a reconnect, not even an explicit \<open>open\<close>. (5) A
  socket that opens sets the counter to 0, so the counting of (1) and (3) starts
  again with every attempt whose socket opens.
\<close>

theorem reconnect_backoff_and_give_up:
  "(WsOpened \<notin> set evs \<longrightarrow>
      reconnectCount cl \<le> reconnectCount (run_c evs cl) \<and>
      reconnectCount (run_c evs cl) \<le> max (reconnectCount cl) 6 \<and>
      reconnect_delays (trace_c (run_c evs cl)) =
        reconnect_delays (trace_c cl) @
          map (\<lambda>k. 1000 * k) [reconnectCount cl + 1 ..< reconnectCount (run_c evs cl) + 1]) \<and>
   (mayReconnect cl \<and> reconnectCount cl \<le> 5 \<longrightarrow>
      p_reconnect cl =
        cl\<lparr>reconnectCount := reconnectCount cl + 1,
           trace_c := trace_c cl @ [SetTimer ReconnectTimer (1000 * (reconnectCount cl + 1))]\<rparr>) \<and>
   (mayReconnect cl \<and> 5 < reconnectCount cl \<longrightarrow> p_reconnect cl = cl\<lparr>mayReconnect := False\<rparr>) \<and>
   (mayReconnect cl \<and> reconnectCount cl = 0 \<and> n \<le> 5 \<longrightarrow>
      mayReconnect (run_c (WsClosed r # unopened_attempts n) cl) \<and>
      reconnect_delays (trace_c (run_c (WsClosed r # unopened_attempts n) cl)) =
        reconnect_delays (trace_c cl) @ map (\<lambda>k. 1000 * k) [1 ..< n + 2]) \<and>
   (mayReconnect cl \<and> reconnectCount cl = 0 \<and> 6 \<le> n \<longrightarrow>
      \<not> mayReconnect (run_c (WsClosed r # unopened_attempts n @ evs) cl) \<and>
      reconnect_delays (trace_c (run_c (WsClosed r # unopened_attempts n @ evs) cl)) =
        reconnect_delays (trace_c cl) @ [1000, 2000, 3000, 4000, 5000, 6000]) \<and>
   (\<not> mayReconnect cl \<longrightarrow>
      \<not> mayReconnect (run_c evs cl) \<and>
      reconnect_delays (trace_c (run_c evs cl)) = reconnect_delays (trace_c cl)) \<and>
   reconnectCount (ws_onopen cl) = 0"
proof (intro conjI impI)
  assume "WsOpened \<notin> set evs"
  then have c: "counted cl (run_c evs cl)" by (rule counted_run)
  from c show "reconnectCount cl \<le> reconnectCount (run_c evs cl)" by (simp add: counted_def)
  from c show "reconnectCount (run_c evs cl) \<le> max (reconnectCount cl) 6"
    by (simp add: counted_def)
  from c show "reconnect_delays (trace_c (run_c evs cl)) =
        reconnect_delays (trace_c cl) @
          map (\<lambda>k. 1000 * k) [reconnectCount cl + 1 ..< reconnectCount (run_c evs cl) + 1]"
    by (simp add: counted_def)
next
  assume "mayReconnect cl \<and> reconnectCount cl \<le> 5"
  then show "p_reconnect cl =
        cl\<lparr>reconnectCount := reconnectCount cl + 1,
           trace_c := trace_c cl @ [SetTimer ReconnectTimer (1000 * (reconnectCount cl + 1))]\<rparr>"
    by (simp add: p_reconnect_def emit_c_def Let_def)
next
  assume "mayReconnect cl \<and> 5 < reconnectCount cl"
  then show "p_reconnect cl = cl\<lparr>mayReconnect := False\<rparr>" by (simp add: p_reconnect_def)
next
  assume a: "mayReconnect cl \<and> reconnectCount cl = 0 \<and> n \<le> 5"
  then have "mayReconnect cl" "reconnectCount cl = 0" "n \<le> 5" by simp_all
  from close_then_unopened_attempts[OF this, of r]
  show "mayReconnect (run_c (WsClosed r # unopened_attempts n) cl)"
    and "reconnect_delays (trace_c (run_c (WsClosed r # unopened_attempts n) cl)) =
        reconnect_delays (trace_c cl) @ map (\<lambda>k. 1000 * k) [1 ..< n + 2]"
    by simp_all
next
  assume a: "mayReconnect cl \<and> reconnectCount cl = 0 \<and> 6 \<le> n"
  then have m: "mayReconnect cl" and z: "reconnectCount cl = 0" and n6: "6 \<le> n" by simp_all
  from close_then_give_up[OF m z n6, of r evs]
  show "\<not> mayReconnect (run_c (WsClosed r # unopened_attempts n @ evs) cl)"
    and "reconnect_delays (trace_c (run_c (WsClosed r # unopened_attempts n @ evs) cl)) =
        reconnect_delays (trace_c cl) @ [1000, 2000, 3000, 4000, 5000, 6000]"
    by simp_all
next
  assume s: "\<not> mayReconnect cl"
  from stopped_run[OF s, of evs]
  show "\<not> mayReconnect (run_c evs cl)"
    and "reconnect_delays (trace_c (run_c evs cl)) = reconnect_delays (trace_c cl)"
    by simp_all
next
  show "reconnectCount (ws_onopen cl) = 0" by (rule onopen_resets)
qed

theorem reconnect_backoff_and_give_up_witness:
  "mayReconnect (run_c [CallOpen None] (new_client ''s'')) \<and>
   reconnectCount (run_c [CallOpen None] (new_client ''s'')) = 0 \<and>
   WsOpened \<notin> set (WsClosed [] # unopened_attempts 2) \<and>
   reconnectCount
     (run_c (WsClosed [] # unopened_attempts 2) (run_c [CallOpen None] (new_client ''s''))) = 3 \<and>
   reconnect_delays (trace_c
     (run_c (WsClosed [] # unopened_attempts 2) (run_c [CallOpen None] (new_client ''s'')))) =
     [1000, 2000, 3000] \<and>
   mayReconnect
     (run_c (WsClosed [] # unopened_attempts 2) (run_c [CallOpen None] (new_client ''s''))) \<and>
   trace_c (p_reconnect
     ((run_c [CallOpen None] (new_client ''s''))\<lparr>ws := Some CLOSED, alive := False\<rparr>)) =
     [NewWebSocket, SetTimer ReconnectTimer 1000] \<and>
   mayReconnect
     (run_c (WsClosed [] # unopened_attempts 5) (run_c [CallOpen None] (new_client ''s''))) \<and>
   reconnectCount
     (run_c (WsClosed [] # unopened_attempts 5) (run_c [CallOpen None] (new_client ''s''))) = 6 \<and>
   \<not> mayReconnect (p_reconnect
     ((reconnect_timeout
        (run_c (WsClosed [] # unopened_attempts 5) (run_c [CallOpen None] (new_client ''s''))))
      \<lparr>ws := Some CLOSED, alive := False\<rparr>)) \<and>
   \<not> mayReconnect
     (run_c (WsClosed [] # unopened_attempts 6 @ [CallOpen None, WsOpened, WsClosed []])
        (run_c [CallOpen None] (new_client ''s''))) \<and>
   reconnect_delays (trace_c
     (run_c (WsClosed [] # unopened_attempts 6 @ [CallOpen None, WsOpened, WsClosed []])
        (run_c [CallOpen None] (new_client ''s'')))) = [1000, 2000, 3000, 4000, 5000, 6000] \<and>
   \<not> mayReconnect (run_c [CallOpen None, CallCloseC] (new_client ''s'')) \<and>
   \<not> mayReconnect
     (run_c [WsClosed [], CallOpen None, WsOpened, WsClosed []]
        (run_c [CallOpen None, CallCloseC] (new_client ''s''))) \<and>
   reconnect_delays (trace_c
     (run_c [WsClosed [], CallOpen None, WsOpened, WsClosed []]
        (run_c [CallOpen None, CallCloseC] (new_client ''s'')))) = []"
proof -
  let ?cl0 = "run_c [CallOpen None] (new_client ''s'')"
  have m0: "mayReconnect ?cl0" and c0: "reconnectCount ?cl0 = 0"
    and d0: "reconnect_delays (trace_c ?cl0) = []" and t0: "trace_c ?cl0 = [NewWebSocket]"
    by (simp_all add: client_defs)
  let ?evs = "WsClosed [] # unopened_attempts 2"
  let ?cl3 = "run_c ?evs ?cl0"
  have no: "WsOpened \<notin> set ?evs"
    by (simp add: unopened_attempts_def eval_nat_numeral)
  have c3: "reconnectCount ?cl3 = 3"
    using close_then_unopened_attempts[OF m0 c0, of 2 "[]"] by simp
  have d3: "reconnect_delays (trace_c ?cl3) = [1000, 2000, 3000]"
    using reconnect_backoff_and_give_up[where cl = ?cl0 and evs = ?evs and n = 0 and r = "[]"]
      no c0 c3 d0
    by (simp add: upt_rec del: upt_Suc)
  have m3: "mayReconnect ?cl3"
    using reconnect_backoff_and_give_up[where cl = ?cl0 and evs = "[]" and n = 2 and r = "[]"]
      m0 c0
    by simp
  let ?after = "[CallOpen None, WsOpened, WsClosed []]"
  have g: "\<not> mayReconnect (run_c (WsClosed [] # unopened_attempts 6 @ ?after) ?cl0) \<and>
      reconnect_delays (trace_c (run_c (WsClosed [] # unopened_attempts 6 @ ?after) ?cl0)) =
        [1000, 2000, 3000, 4000, 5000, 6000]"
    using reconnect_backoff_and_give_up[where cl = ?cl0 and evs = ?after and n = 6 and r = "[]"]
      m0 c0 d0
    by simp
  let ?c0 = "?cl0\<lparr>ws := Some CLOSED, alive := False\<rparr>"
  have p0: "trace_c (p_reconnect ?c0) = [NewWebSocket, SetTimer ReconnectTimer 1000]"
    using reconnect_backoff_and_give_up[where cl = ?c0 and evs = "[]" and n = 0 and r = "[]"]
      m0 c0 t0
    by simp
  let ?cl6 = "run_c (WsClosed [] # unopened_attempts 5) ?cl0"
  have m6: "mayReconnect ?cl6" and c6: "reconnectCount ?cl6 = 6"
    using close_then_unopened_attempts[OF m0 c0, of 5 "[]"] by simp_all
  let ?c6 = "(reconnect_timeout ?cl6)\<lparr>ws := Some CLOSED, alive := False\<rparr>"
  have p6: "\<not> mayReconnect (p_reconnect ?c6)"
    using reconnect_backoff_and_give_up[where cl = ?c6 and evs = "[]" and n = 0 and r = "[]"]
      m6 c6
    by (simp add: timeout_opens)
  let ?x = "run_c [CallOpen None, CallCloseC] (new_client ''s'')"
  have mx: "\<not> mayReconnect ?x" and dx: "reconnect_delays (trace_c ?x) = []"
    by (simp_all add: client_defs Let_def)
  have x: "\<not> mayReconnect (run_c [WsClosed [], CallOpen None, WsOpened, WsClosed []] ?x) \<and>
      reconnect_delays (trace_c (run_c [WsClosed [], CallOpen None, WsOpened, WsClosed []] ?x)) = []"
    using reconnect_backoff_and_give_up[where cl = ?x
        and evs = "[WsClosed [], CallOpen None, WsOpened, WsClosed []]" and n = 0 and r = "[]"]
      mx dx
    by simp
  from m0 c0 no c3 d3 m3 p0 m6 c6 p6 g mx x show ?thesis by (simp only: simp_thms)
qed


section \<open>What holds of the handshake, the replay, the sweep and the ids\<close>

lemma sent_to_append: "sent_to c (xs @ ys) = sent_to c xs @ sent_to c ys"
  by (induction xs rule: sent_to.induct) simp_all

lemma trace_fold_p_send: "trace (fold (p_send c) ps st) = trace st @ map (Send c) ps"
  by (induction ps arbitrary: st) (simp_all add: p_send_def emit_def)

lemma sent_to_same: "sent_to c (map (Send c) ps) = ps"
  by (induction ps) simp_all

text \<open>What holds of the replay: it hands the socket exactly the entries of the history
  whose id is greater than the client's, in the order of the history.\<close>

lemma replay_sends_newer_entries:
  assumes "jm_get (clientHistories st) sid = Some h"
  shows "sent_to c (trace (replay c sid l st)) =
           sent_to c (trace st) @ map snd (filter (\<lambda>e. l < fst e) h)"
proof -
  have "trace (replay c sid l st) = trace st @ map (Send c) (replay_packets h l)"
    using assms by (simp add: replay_def trace_fold_p_send)
  then show ?thesis
    by (simp only: sent_to_append sent_to_same replay_packets_def)
qed

text \<open>In id order when the history is: the order is that of the insertions.\<close>

lemma replay_sorted_when_history_sorted:
  assumes "sorted_wrt (<) (jm_keys h)" and "\<forall>e \<in> set h. pkt_id (snd e) = fst e"
  shows "sorted_wrt (<) (map pkt_id (replay_packets h l))"
proof -
  have "map pkt_id (replay_packets h l) = map fst (filter (\<lambda>e. l < fst e) h)"
    using assms(2) by (induction h) (simp_all add: replay_packets_def)
  also have "\<dots> = filter (\<lambda>k. l < k) (jm_keys h)"
    by (simp add: jm_keys_def filter_map comp_def)
  finally show ?thesis using assms(1) by (simp add: sorted_wrt_filter)
qed

text \<open>What holds of the eviction: an accepted handshake first closes the socket that
  was bound to the session, with code 4002, and leaves the new socket bound.\<close>

lemma accept_handshake_closes_old_then_binds:
  assumes "jm_get (clients st) sid = Some old"
  shows "jm_get (clients (accept_handshake c sid l st)) sid = Some c"
    and "take (Suc (length (trace st))) (trace (accept_handshake c sid l st)) =
           trace st @ [Close old (Some (4002, ''duplicate session''))]"
  using assms
  by (simp_all add: accept_handshake_def evict_old_def bind_def send_ack_def ws_close_def
      update_ws_def emit_def p_send_def notify_connection_def jm_get_jm_set Let_def
      split: option.splits)

text \<open>What holds of the sweep: a socket whose flag is set has it cleared and is pinged,
  and nothing else changes.\<close>

lemma sweep_client_alive:
  assumes "sockets st c = Some w" and "isAlive w"
  shows "sweep_client c st =
           st\<lparr>sockets := (sockets st)(c \<mapsto> w\<lparr>isAlive := False\<rparr>), trace := trace st @ [Ping c]\<rparr>"
  using assms by (simp add: sweep_client_def emit_def)

text \<open>What holds of \<open>send\<close>: the packet is in the history, or already evicted from it,
  when it is handed to the socket, and it is the only thing handed over.\<close>

lemma send_records_then_transmits:
  assumes "jm_get (clients st) sid = Some c" "sockets st c = Some w" "readyState w = OPEN"
    "bufferedAmount w \<le> 5000000"
  shows "trace (send sid cmd d st) =
           trace st @ [Send c \<lparr>pkt_id = lastSentId w + 1, pkt_command = cmd, pkt_data = d\<rparr>]"
  using assms
  by (auto simp: send_def Let_def ensure_history_def jm_has_def jm_get_def[symmetric]
      jm_get_jm_set p_send_def emit_def split: option.splits)


text \<open>What holds of the ids on the client: \<open>send\<close> stamps the successor of the
  counter, on the wire or in the queue, and no turn of the client lowers the counter,
  not even a reconnect; so each id the client stamps is greater than all before.\<close>

lemma client_send_stamps_next:
  "lastSentId_c (send_c cmd d cl) = lastSentId_c cl + 1 \<and>
   (if ws cl = Some OPEN
    then trace_c (send_c cmd d cl) =
           trace_c cl @ [WsSend \<lparr>pkt_id = lastSentId_c cl + 1, pkt_command = cmd, pkt_data = d\<rparr>]
    else unsentQueue (send_c cmd d cl) =
           unsentQueue cl @ [\<lparr>pkt_id = lastSentId_c cl + 1, pkt_command = cmd, pkt_data = d\<rparr>])"
  by (simp add: send_c_def emit_c_def Let_def)

lemma ls_emit_c [simp]: "lastSentId_c (emit_c es cl) = lastSentId_c cl"
  by (simp add: emit_c_def)

lemma ls_call_listener [simp]: "lastSentId_c (call_listener d l cl) = lastSentId_c cl"
  by (cases l) simp_all

lemma ls_listeners [simp]: "lastSentId_c (fold (call_listener d) ls cl) = lastSentId_c cl"
  by (induction ls arbitrary: cl) simp_all

lemma ls_handleMessage [simp]: "lastSentId_c (p_handleMessage msg cl) = lastSentId_c cl"
  by (simp add: p_handleMessage_def Let_def split: option.splits)

lemma ls_reconnect [simp]: "lastSentId_c (p_reconnect cl) = lastSentId_c cl"
  by (simp add: p_reconnect_def Let_def)

lemma ls_stopPing [simp]: "lastSentId_c (p_stopPing cl) = lastSentId_c cl"
  by (simp add: p_stopPing_def)

lemma ls_startPing [simp]: "lastSentId_c (p_startPing cl) = lastSentId_c cl"
  by (simp add: p_startPing_def)

lemma ls_close_c [simp]: "lastSentId_c (close_c cl) = lastSentId_c cl"
  by (simp add: close_c_def Let_def split: option.splits)

lemma ls_send_c: "lastSentId_c (send_c cmd d cl) = lastSentId_c cl + 1"
  by (simp add: send_c_def Let_def)

lemma ls_step: "lastSentId_c cl \<le> lastSentId_c (step_c ev cl)"
proof (cases ev)
  case (WsMessage raw)
  then show ?thesis by (cases raw) (simp_all add: ws_onmessage_def)
qed (simp_all add: open_c_def destroy_def on_c_def off_c_def ws_onopen_def ws_onclose_def
      handshake_timeout_def ping_tick_def reconnect_timeout_def ls_send_c Let_def
      split: option.splits)

lemma client_counter_never_decreases: "lastSentId_c cl \<le> lastSentId_c (run_c evs cl)"
  unfolding run_c_def
proof (induction evs arbitrary: cl)
  case Nil
  show ?case by simp
next
  case (Cons ev evs)
  have "lastSentId_c cl \<le> lastSentId_c (step_c ev cl)" by (rule ls_step)
  also have "\<dots> \<le> lastSentId_c (fold step_c evs (step_c ev cl))" by (rule Cons.IH)
  finally show ?case by simp
qed


section \<open>Sequence ids across a reconnect\<close>

text \<open>
  C1 fails on the server. The counter \<open>lastSentId\<close> belongs to the socket and starts
  at 0 on every connection, so the session's second socket is handed the id 1 after
  the first was handed 1 and 2: the ids sent to session \<open>s\<close> are 1, 2, 1. The
  history of the session still holds the packet with id 2. The client, which keeps
  its \<open>lastReceivedId\<close> (2) across the reconnect, takes the second acknowledgement
  for a duplicate and discards it, so its handshake does not complete.
\<close>

theorem ids_restart_on_reconnect:
  "sent_ids (trace (run reconnect_run new_server)) = [(0, 1), (0, 2), (1, 1)] \<and>
   jm_get (clients (run reconnect_run new_server)) ''s'' = Some 1 \<and>
   jm_keys (history_of (run reconnect_run new_server) ''s'') = [2] \<and>
   lastReceivedId returning_client = 2 \<and>
   handshakeComplete
     (step_c (WsMessage (Msg ''handshake_ack'' 1 Null)) returning_client) = False"
proof -
  have "sent_ids (trace (run reconnect_run new_server)) = [(0, 1), (0, 2), (1, 1)]"
    and "jm_get (clients (run reconnect_run new_server)) ''s'' = Some 1"
    and "jm_keys (history_of (run reconnect_run new_server) ''s'') = [2]"
    by (simp_all add: reconnect_run_def server_defs Let_def)
  moreover have "lastReceivedId returning_client = 2"
    and "handshakeComplete
     (step_c (WsMessage (Msg ''handshake_ack'' 1 Null)) returning_client) = False"
    by (simp_all add: returning_client_def client_defs Let_def)
  ultimately show ?thesis by simp
qed


section \<open>Duplicate sessions\<close>

text \<open>
  C2 fails. The second handshake closes the first socket with code 4002 and binds the
  second socket to the session. When the \<open>close\<close> event of the first socket is
  processed, its handler deletes the session from the registry, although the session
  is bound to the second socket by then: no socket is bound to the session any more,
  and the disconnection callbacks are called for a session whose client is connected.
\<close>

theorem close_of_evicted_socket_unbinds_session:
  "trace (run duplicate_run new_server) =
     [Send 0 \<lparr>pkt_id = 1, pkt_command = ''handshake_ack'', pkt_data = Null\<rparr>,
      Close 0 (Some (4002, ''duplicate session'')),
      Send 1 \<lparr>pkt_id = 1, pkt_command = ''handshake_ack'', pkt_data = Null\<rparr>] \<and>
   jm_get (clients (run duplicate_run new_server)) ''s'' = Some 1 \<and>
   jm_get (clients (run (duplicate_run @ [CloseEvent 0]) new_server)) ''s'' = None \<and>
   map_option readyState (sockets (run (duplicate_run @ [CloseEvent 0]) new_server) 1) = Some OPEN"
  by (simp add: duplicate_run_def server_defs Let_def)


section \<open>The liveness sweep\<close>

text \<open>
  C9 fails. The sweep that finds the flag cleared terminates the socket, deletes the
  session from the registry and calls the disconnection listener; the \<open>close\<close>
  event of the terminated socket then runs the socket's \<open>close\<close> handler, which
  calls the listener again: two notifications for one termination.
\<close>

theorem sweep_notifies_twice:
  "trace (run silent_run new_server) =
     [Send 0 \<lparr>pkt_id = 1, pkt_command = ''handshake_ack'', pkt_data = Null\<rparr>,
      Ping 0, Terminate 0, DisconnectionCb 7 ''s'', DisconnectionCb 7 ''s''] \<and>
   disconnections (trace (run silent_run new_server)) = [(7, ''s''), (7, ''s'')] \<and>
   jm_get (clients (run silent_run new_server)) ''s'' = None"
  by (simp add: silent_run_def server_defs Let_def)


section \<open>Broadcasts and the history\<close>

text \<open>
  C5 fails for \<open>broadcast\<close>. The broadcast packet takes the next id of the socket (2)
  and is handed to the socket, and the session's history stays empty: the packet
  cannot be replayed.
\<close>

theorem broadcast_not_recorded:
  "sent_to 0 (trace (run broadcast_run new_server)) =
     [\<lparr>pkt_id = 1, pkt_command = ''handshake_ack'', pkt_data = Null\<rparr>,
      \<lparr>pkt_id = 2, pkt_command = ''news'', pkt_data = Opaque ''n''\<rparr>] \<and>
   jm_get (clientHistories (run broadcast_run new_server)) ''s'' = Some []"
  by (simp add: broadcast_run_def server_defs Let_def)


section \<open>The order of a replay\<close>

text \<open>
  C4 fails on the order. The replay follows the insertion order of the history. The
  first socket records id 4 (its ids 2 and 3 went to broadcasts), the second socket
  starts again at 1 and records id 2 after it: the history is 4, 2, and the third
  socket receives its acknowledgement and then the ids 4, 2.
\<close>

theorem replay_not_in_id_order:
  "jm_keys (history_of (run replay_run new_server) ''s'') = [4, 2] \<and>
   map pkt_id (sent_to 2 (trace (run replay_run new_server))) = [1, 4, 2] \<and>
   map pkt_id (replay_packets (history_of (run replay_run new_server) ''s'') 0) = [4, 2]"
  by (simp add: replay_run_def server_defs Let_def)

end
